theory Spec2Isabelle
  imports Main "HOL-Library.Log_Nat"
begin

section \<open>JavaScript values used by the recommendation service\<close>

text \<open>
  The service is one Node.js file: a \<open>CircuitBreaker\<close> class, two breaker instances,
  a table of simulated dependency behaviours and the HTTP handlers. This theory embeds
  the class method by method, the recommendations handler statement by statement and
  the metrics handler.

  JSON bodies are kept as ordered key/value lists, so that the presence or absence of a
  key such as \<open>fallback_triggered_for\<close> can be stated.
\<close>

datatype json =
    JUndefined
  | JStr string
  | JNum int
  | JArr "json list"
  | JObj "(string \<times> json) list"

text \<open>Reading a JSON object: the value stored under a key, and the keys in order.\<close>

fun field :: "json \<Rightarrow> string \<Rightarrow> json option" where
  "field (JObj kvs) k = map_of kvs k"
| "field _ k = None"

fun keys :: "json \<Rightarrow> string list" where
  "keys (JObj kvs) = map fst kvs"
| "keys _ = []"

text \<open>Every error the file creates is a plain \<open>Error\<close> carrying a message.\<close>

datatype js_error = Error string

fun message :: "js_error \<Rightarrow> string" where
  "message (Error m) = m"

subsection \<open>Number arithmetic\<close>

text \<open>
  The failure rate is computed with the Number operators \<open>/\<close> and \<open>*\<close>, that is in
  IEEE binary64 with round-to-nearest, ties-to-even. A Number is represented by the
  rational it denotes; \<open>js_double\<close> rounds a rational to the nearest value with a 53 bit
  significand. Only quotients \<open>f / n\<close> with \<open>0 \<le> f \<le> n\<close> and their products with 100 are
  ever rounded, so exponent overflow and subnormals do not arise and are not modelled.
\<close>

definition round_half_even :: "rat \<Rightarrow> int" where
  "round_half_even x =
     (let n = \<lfloor>x\<rfloor>; r = x - of_int n
      in if r < 1 / 2 then n
         else if 1 / 2 < r then n + 1
         else if even n then n else n + 1)"

text \<open>\<open>binade x\<close> is the exponent \<open>e\<close> with \<open>2 ^ e \<le> x < 2 ^ (e + 1)\<close>, for \<open>x > 0\<close>.\<close>

definition binade :: "rat \<Rightarrow> int" where
  "binade x =
     (let (a, b) = quotient_of x; k = bitlen a - bitlen b
      in if 2 powi k \<le> x then k else k - 1)"

definition js_double :: "rat \<Rightarrow> rat" where
  "js_double x =
     (if x = 0 then 0
      else let e = binade \<bar>x\<bar> - 52;
               m = round_half_even (\<bar>x\<bar> / 2 powi e)
           in sgn x * of_int m * 2 powi e)"

definition js_div :: "rat \<Rightarrow> rat \<Rightarrow> rat" where
  "js_div x y = js_double (x / y)"

definition js_mul :: "rat \<Rightarrow> rat \<Rightarrow> rat" where
  "js_mul x y = js_double (x * y)"

text \<open>
  \<open>Number.prototype.toFixed(1)\<close>: the integer \<open>n\<close> with \<open>n / 10\<close> closest to the
  number (the larger one on a tie), printed with one digit after the point.
\<close>

definition digit_char :: "nat \<Rightarrow> char" where
  "digit_char d = ''0123456789'' ! d"

function decimal :: "nat \<Rightarrow> string" where
  "decimal n = (if n < 10 then [digit_char n] else decimal (n div 10) @ [digit_char (n mod 10)])"
  by pat_completeness auto
termination
  by (relation "measure id") auto

definition toFixed1 :: "rat \<Rightarrow> string" where
  "toFixed1 x =
     (let n = nat \<lfloor>\<bar>x\<bar> * 10 + 1 / 2\<rfloor>
      in (if x < 0 \<and> 0 < n then ''-'' else '''')
         @ decimal (n div 10) @ ''.'' @ [digit_char (n mod 10)])"

section \<open>The circuit breaker\<close>

datatype cb_state = CLOSED | OPEN | HALF_OPEN

text \<open>
  One record field per instance field of the class. The counters start at 0 and are
  only incremented or reset to 0; the thresholds, the window and the durations are
  natural numbers wherever the file builds a breaker. All of them are natural numbers
  here. \<open>lastFailureTime\<close> starts as \<open>null\<close> and later holds a \<open>Date.now()\<close> reading in
  milliseconds. An entry \<open>{ success: s }\<close> of \<open>requestHistory\<close> is the boolean \<open>s\<close>,
  oldest entry first.
\<close>

record breaker =
  name :: string
  state :: cb_state
  failureCount :: nat
  successCount :: nat
  lastFailureTime :: "int option"
  timeout :: nat
  failureThreshold :: nat
  failureRateThreshold :: nat
  failureRateWindow :: nat
  openDuration :: nat
  halfOpenTrials :: nat
  trialCount :: nat
  requestHistory :: "bool list"

record options =
  opt_timeout :: "nat option"
  opt_failureThreshold :: "nat option"
  opt_failureRateThreshold :: "nat option"
  opt_failureRateWindow :: "nat option"
  opt_openDuration :: "nat option"
  opt_halfOpenTrials :: "nat option"

text \<open>\<open>options.x || d\<close>: a missing option and the falsy number 0 both give the default.\<close>

fun or_default :: "nat option \<Rightarrow> nat \<Rightarrow> nat" where
  "or_default None d = d"
| "or_default (Some v) d = (if v = 0 then d else v)"

definition constructor :: "string \<Rightarrow> options \<Rightarrow> breaker" where
  "constructor nm opts =
     \<lparr> name = nm,
       state = CLOSED,
       failureCount = 0,
       successCount = 0,
       lastFailureTime = None,
       timeout = or_default (opt_timeout opts) 2000,
       failureThreshold = or_default (opt_failureThreshold opts) 5,
       failureRateThreshold = or_default (opt_failureRateThreshold opts) 50,
       failureRateWindow = or_default (opt_failureRateWindow opts) 10,
       openDuration = or_default (opt_openDuration opts) 30000,
       halfOpenTrials = or_default (opt_halfOpenTrials opts) 3,
       trialCount = 0,
       requestHistory = [] \<rparr>"

text \<open>
  \<open>requestHistory.push(e)\<close> followed by
  \<open>if (requestHistory.length > failureRateWindow) requestHistory.shift()\<close>.
\<close>

definition record_outcome :: "nat \<Rightarrow> bool \<Rightarrow> bool list \<Rightarrow> bool list" where
  "record_outcome w s h = (let h' = h @ [s] in if w < length h' then tl h' else h')"

text \<open>
  The expression shared by \<open>onFailure\<close> and \<open>getMetrics\<close>:
  \<open>(history.filter(r => !r.success).length / history.length) * 100\<close>.
\<close>

definition failures :: "bool list \<Rightarrow> nat" where
  "failures h = length (filter (\<lambda>s. \<not> s) h)"

definition percentFailed :: "bool list \<Rightarrow> rat" where
  "percentFailed h = js_mul (js_div (of_nat (failures h)) (of_nat (length h))) 100"

definition failureRate :: "bool list \<Rightarrow> rat" where
  "failureRate h = (if 0 < length h then percentFailed h else 0)"

definition onSuccess :: "breaker \<Rightarrow> breaker" where
  "onSuccess b =
     (let b1 = b\<lparr> successCount := successCount b + 1,
                  requestHistory := record_outcome (failureRateWindow b) True (requestHistory b) \<rparr>
      in if state b1 = HALF_OPEN then
           (let b2 = b1\<lparr> trialCount := trialCount b1 + 1 \<rparr>
            in if halfOpenTrials b2 \<le> trialCount b2
               then b2\<lparr> state := CLOSED, failureCount := 0 \<rparr>
               else b2)
         else if state b1 = CLOSED then b1\<lparr> failureCount := 0 \<rparr>
         else b1)"

text \<open>\<open>now\<close> is the value \<open>Date.now()\<close> returns inside \<open>onFailure\<close>.\<close>

definition onFailure :: "breaker \<Rightarrow> int \<Rightarrow> breaker" where
  "onFailure b now =
     (let b1 = b\<lparr> failureCount := failureCount b + 1,
                  lastFailureTime := Some now,
                  requestHistory := record_outcome (failureRateWindow b) False (requestHistory b) \<rparr>
      in if state b1 = HALF_OPEN then b1\<lparr> state := OPEN, trialCount := 0 \<rparr>
         else if state b1 = CLOSED then
           (if failureThreshold b1 \<le> failureCount b1 then b1\<lparr> state := OPEN \<rparr>
            else if of_nat (failureRateThreshold b1) \<le> failureRate (requestHistory b1)
                    \<and> failureRateWindow b1 \<le> length (requestHistory b1)
                 then b1\<lparr> state := OPEN \<rparr>
                 else b1)
         else b1)"

subsection \<open>execute\<close>

text \<open>
  The wrapped function \<open>fn\<close> acts on the world outside the breaker (type \<open>'w\<close>, for
  instance a call counter) and returns a promise: one that settles after some
  milliseconds with a value or a rejection, or one that never settles. A function that
  throws synchronously is caught by the same \<open>try\<close> block and is the promise rejected
  at once.
\<close>

datatype 'a promise = Settles nat "js_error + 'a" | Never

text \<open>
  \<open>Promise.race([fn(), timer])\<close> with a timer that rejects with \<open>Error('Timeout')\<close> after
  \<open>ms\<close> milliseconds. \<open>fn()\<close> is evaluated before the timer is created, so a call that
  settles at exactly \<open>ms\<close> settles first and wins; the timer wins only when the call
  takes longer.
\<close>

fun race :: "nat \<Rightarrow> 'a promise \<Rightarrow> js_error + 'a" where
  "race ms (Settles d r) = (if d \<le> ms then r else Inl (Error ''Timeout''))"
| "race ms Never = Inl (Error ''Timeout'')"

text \<open>\<open>now - this.lastFailureTime\<close>: the initial \<open>null\<close> converts to 0.\<close>

fun elapsed :: "int \<Rightarrow> int option \<Rightarrow> int" where
  "elapsed now None = now"
| "elapsed now (Some t) = now - t"

definition open_error :: "breaker \<Rightarrow> js_error" where
  "open_error b = Error (''Circuit breaker '' @ name b @ '' is OPEN'')"

text \<open>The \<open>try\<close> block of \<open>execute\<close>; \<open>t1\<close> is the clock when the race has been lost.\<close>

definition attempt ::
  "breaker \<Rightarrow> ('w \<Rightarrow> 'a promise \<times> 'w) \<Rightarrow> 'w \<Rightarrow> int \<Rightarrow> (js_error + 'a) \<times> breaker \<times> 'w" where
  "attempt b fn w t1 =
     (let (p, w') = fn w
      in case race (timeout b) p of
           Inr v \<Rightarrow> (Inr v, onSuccess b, w')
         | Inl e \<Rightarrow> (Inl e, onFailure b t1, w'))"

text \<open>
  \<open>execute(fn)\<close>: \<open>t0\<close> is the clock at entry, \<open>t1\<close> the clock inside \<open>onFailure\<close>.
  The result is what the caller gets (\<open>Inl\<close> for a thrown error), the breaker after the
  call and the world after the call.
\<close>

definition execute ::
  "breaker \<Rightarrow> ('w \<Rightarrow> 'a promise \<times> 'w) \<Rightarrow> 'w \<Rightarrow> int \<Rightarrow> int \<Rightarrow> (js_error + 'a) \<times> breaker \<times> 'w" where
  "execute b fn w t0 t1 =
     (if state b = OPEN then
        (if int (openDuration b) < elapsed t0 (lastFailureTime b)
         then attempt (b\<lparr> state := HALF_OPEN, trialCount := 0 \<rparr>) fn w t1
         else (Inl (open_error b), b, w))
      else attempt b fn w t1)"

text \<open>
  The first statement of \<open>execute\<close> on its own: the breaker as the pending call and
  every other request see it, or \<open>None\<close> when the call is turned away.
\<close>

definition admit :: "breaker \<Rightarrow> int \<Rightarrow> breaker option" where
  "admit b t0 =
     (if state b = OPEN then
        (if int (openDuration b) < elapsed t0 (lastFailureTime b)
         then Some (b\<lparr> state := HALF_OPEN, trialCount := 0 \<rparr>)
         else None)
      else Some b)"

subsection \<open>getMetrics\<close>

fun state_name :: "cb_state \<Rightarrow> string" where
  "state_name CLOSED = ''CLOSED''"
| "state_name OPEN = ''OPEN''"
| "state_name HALF_OPEN = ''HALF_OPEN''"

text \<open>The method reads fields only; the breaker is returned to make that a statement.\<close>

definition getMetrics :: "breaker \<Rightarrow> json \<times> breaker" where
  "getMetrics b =
     (let failureRate =
            (if 0 < length (requestHistory b)
             then toFixed1 (percentFailed (requestHistory b))
             else ''0.0'')
      in (JObj [(''state'', JStr (state_name (state b))),
                (''failureRate'', JStr (failureRate @ ''%'')),
                (''successfulCalls'', JNum (int (successCount b))),
                (''failedCalls'', JNum (int (failureCount b)))],
          b))"

subsection \<open>Sequences of calls\<close>

text \<open>
  A call in a sequence is the clock at entry, the promise the wrapped function returns
  and the clock when a failure is recorded. \<open>run\<close> performs \<open>execute\<close> for each call in
  turn on the same breaker.
\<close>

type_synonym 'a call = "int \<times> 'a promise \<times> int"

definition after :: "breaker \<Rightarrow> 'a call \<Rightarrow> breaker" where
  "after b c = (case c of (t0, p, t1) \<Rightarrow> fst (snd (execute b (\<lambda>w. (p, w)) () t0 t1)))"

fun run :: "breaker \<Rightarrow> 'a call list \<Rightarrow> breaker" where
  "run b [] = b"
| "run b (c # cs) = run (after b c) cs"

text \<open>A call fails when the race against the breaker's timer ends in a rejection.\<close>

definition call_fails :: "breaker \<Rightarrow> 'a call \<Rightarrow> bool" where
  "call_fails b c = (case c of (t0, p, t1) \<Rightarrow> isl (race (timeout b) p))"

text \<open>The fields the constructor sets from its arguments and no method assigns.\<close>

definition config :: "breaker \<Rightarrow> string \<times> nat \<times> nat \<times> nat \<times> nat \<times> nat \<times> nat" where
  "config b = (name b, timeout b, failureThreshold b, failureRateThreshold b,
               failureRateWindow b, openDuration b, halfOpenTrials b)"

text \<open>The success flags a sequence of calls leaves in the history when none is turned away.\<close>

definition outcomes :: "breaker \<Rightarrow> 'a call list \<Rightarrow> bool list" where
  "outcomes b cs = map (\<lambda>c. \<not> call_fails b c) cs"

subsection \<open>Overlapping requests\<close>

text \<open>
  Requests overlap: while one call is pending, other requests enter \<open>execute\<close> and other
  pending calls settle. Between two suspension points the code runs undisturbed, so every
  history of one breaker is a sequence of three kinds of steps: a request passing the
  check at the top of \<open>execute\<close>, a pending call settling with a value, and a pending call
  settling with an error or losing the race.
\<close>

datatype event = Enter int | Resolve | Reject int

fun step :: "breaker \<Rightarrow> event \<Rightarrow> breaker" where
  "step b (Enter t0) = (case admit b t0 of None \<Rightarrow> b | Some b' \<Rightarrow> b')"
| "step b Resolve = onSuccess b"
| "step b (Reject t1) = onFailure b t1"

text \<open>
  The invariant of probation: the number of trials required is positive, and a breaker on
  probation has completed fewer trials than required.
\<close>

definition probation_ok :: "breaker \<Rightarrow> bool" where
  "probation_ok b =
     (0 < halfOpenTrials b \<and> (state b \<noteq> HALF_OPEN \<or> trialCount b < halfOpenTrials b))"

section \<open>The recommendations endpoint\<close>

text \<open>
  The module state: the two breakers of \<open>breakers\<close> and the two entries of
  \<open>serviceStates\<close>.
\<close>

record app =
  breakers_userProfile :: breaker
  breakers_content :: breaker
  serviceStates_user_profile :: string
  serviceStates_content :: string

definition default_options :: options where
  "default_options =
     \<lparr> opt_timeout = Some 2000, opt_failureThreshold = Some 5,
       opt_failureRateThreshold = Some 50, opt_failureRateWindow = Some 10,
       opt_openDuration = Some 30000, opt_halfOpenTrials = Some 3 \<rparr>"

definition initial_app :: app where
  "initial_app =
     \<lparr> breakers_userProfile = constructor ''userProfile'' default_options,
       breakers_content = constructor ''content'' default_options,
       serviceStates_user_profile = ''normal'',
       serviceStates_content = ''normal'' \<rparr>"

record env =
  USER_PROFILE_URL :: "string option"
  CONTENT_URL :: "string option"
  TRENDING_URL :: "string option"

text \<open>\<open>process.env.X || d\<close>: an unset variable and the empty string give the default.\<close>

fun env_or :: "string option \<Rightarrow> string \<Rightarrow> string" where
  "env_or None d = d"
| "env_or (Some v) d = (if v = [] then d else v)"

definition mock_data :: "string \<Rightarrow> json" where
  "mock_data dataType =
     (if dataType = ''user'' then
        JObj [(''userId'', JStr ''123''),
              (''preferences'', JArr [JStr ''Action'', JStr ''Sci-Fi''])]
      else if dataType = ''movies'' then
        JArr [JObj [(''movieId'', JNum 101), (''title'', JStr ''Inception''),
                    (''genre'', JStr ''Sci-Fi'')],
              JObj [(''movieId'', JNum 102), (''title'', JStr ''The Dark Knight''),
                    (''genre'', JStr ''Action'')]]
      else if dataType = ''trending'' then
        JArr [JObj [(''movieId'', JNum 99), (''title'', JStr ''Trending Movie 1'')]]
      else JUndefined)"

definition mockServiceCall :: "string \<Rightarrow> string \<Rightarrow> string \<Rightarrow> json promise" where
  "mockServiceCall baseUrl behavior dataType =
     (if behavior = ''slow'' then Settles 3000 (Inr (mock_data dataType))
      else if behavior = ''fail'' then Settles 0 (Inl (Error ''Service Error - 500''))
      else Settles 0 (Inr (mock_data dataType)))"

text \<open>\<open>await p\<close> outside a race: \<open>None\<close> when the promise never settles.\<close>

fun await :: "'a promise \<Rightarrow> (js_error + 'a) option" where
  "await (Settles d r) = Some r"
| "await Never = None"

record response =
  status :: nat
  body :: json

definition res_json :: "json \<Rightarrow> response" where
  "res_json j = \<lparr> status = 200, body = j \<rparr>"

definition default_preferences :: "string \<Rightarrow> json" where
  "default_preferences userId =
     JObj [(''userId'', JStr userId), (''preferences'', JArr [JStr ''Comedy'', JStr ''Family''])]"

text \<open>
  The four \<open>if\<close> statements that build the body, reading the two breaker states. The
  result is \<open>None\<close> if the handler never answers, \<open>Inl\<close> if an error reaches the outer
  \<open>catch\<close>.
\<close>

definition compose ::
  "string \<Rightarrow> string \<Rightarrow> cb_state \<Rightarrow> cb_state \<Rightarrow> json \<Rightarrow> json \<Rightarrow> (js_error + response) option" where
  "compose trendingURL userId sp sc userPreferences recommendations =
     (if sp = OPEN \<and> sc = OPEN then
        (case await (mockServiceCall trendingURL ''normal'' ''trending'') of
           None \<Rightarrow> None
         | Some (Inl e) \<Rightarrow> Some (Inl e)
         | Some (Inr trending) \<Rightarrow>
             Some (Inr (res_json (JObj
               [(''message'', JStr ''Our recommendation service is temporarily degraded. Here are some trending movies.''),
                (''trending'', trending),
                (''fallback_triggered_for'', JStr ''user-profile-service, content-service'')]))))
      else if sp = OPEN then
        Some (Inr (res_json (JObj
          [(''userPreferences'', default_preferences userId),
           (''recommendations'', recommendations),
           (''fallback_triggered_for'', JStr ''user-profile-service'')])))
      else if sc = OPEN then
        (case await (mockServiceCall trendingURL ''normal'' ''trending'') of
           None \<Rightarrow> None
         | Some (Inl e) \<Rightarrow> Some (Inl e)
         | Some (Inr trending) \<Rightarrow>
             Some (Inr (res_json (JObj
               [(''userPreferences'', userPreferences),
                (''trending'', trending),
                (''message'', JStr ''Using trending movies as fallback''),
                (''fallback_triggered_for'', JStr ''content-service'')]))))
      else
        Some (Inr (res_json (JObj
          [(''userPreferences'', userPreferences),
           (''recommendations'', recommendations)]))))"

text \<open>
  The two guarded calls. Each returns the value the handler keeps, the flag it sets and
  the breaker after the call; \<open>t0\<close> and \<open>t1\<close> are the clock readings of that
  \<open>execute\<close>.
\<close>

definition fetch_userPreferences ::
  "string \<Rightarrow> string \<Rightarrow> string \<Rightarrow> breaker \<Rightarrow> int \<Rightarrow> int \<Rightarrow> json \<times> bool \<times> breaker" where
  "fetch_userPreferences userProfileURL behavior userId b t0 t1 =
     (case execute b (\<lambda>w. (mockServiceCall userProfileURL behavior ''user'', w)) () t0 t1 of
        (Inr v, b', _) \<Rightarrow> (v, False, b')
      | (Inl e, b', _) \<Rightarrow> (default_preferences userId, True, b'))"

definition fetch_recommendations ::
  "string \<Rightarrow> string \<Rightarrow> breaker \<Rightarrow> int \<Rightarrow> int \<Rightarrow> json \<times> bool \<times> breaker" where
  "fetch_recommendations contentURL behavior b t0 t1 =
     (case execute b (\<lambda>w. (mockServiceCall contentURL behavior ''movies'', w)) () t0 t1 of
        (Inr v, b', _) \<Rightarrow> (v, False, b')
      | (Inl e, b', _) \<Rightarrow> (JArr [], True, b'))"

text \<open>
  The handler of \<open>GET /recommendations/:userId\<close>, for one request running on its own.
  \<open>tp0, tp1\<close> are the clock readings of the profile call and \<open>tc0, tc1\<close> those of the
  content call. The result is the response sent (\<open>None\<close>: no response is ever sent) and
  the module state afterwards.
\<close>

definition getRecommendations ::
  "env \<Rightarrow> app \<Rightarrow> string \<Rightarrow> int \<Rightarrow> int \<Rightarrow> int \<Rightarrow> int \<Rightarrow> response option \<times> app" where
  "getRecommendations e a userId tp0 tp1 tc0 tc1 =
     (let userProfileURL = env_or (USER_PROFILE_URL e) ''http://user-profile-service:8081'';
          contentURL = env_or (CONTENT_URL e) ''http://content-service:8082'';
          trendingURL = env_or (TRENDING_URL e) ''http://trending-service:8083'';
          (userPreferences, userProfileFailed, bp) =
             fetch_userPreferences userProfileURL (serviceStates_user_profile a) userId
               (breakers_userProfile a) tp0 tp1;
          (recommendations, contentFailed, bc) =
             fetch_recommendations contentURL (serviceStates_content a)
               (breakers_content a) tc0 tc1;
          a' = a\<lparr> breakers_userProfile := bp, breakers_content := bc \<rparr>
      in case compose trendingURL userId (state bp) (state bc) userPreferences recommendations of
           None \<Rightarrow> (None, a')
         | Some (Inr r) \<Rightarrow> (Some r, a')
         | Some (Inl err) \<Rightarrow>
             (Some \<lparr> status = 500, body = JObj [(''error'', JStr (message err))] \<rparr>, a'))"

text \<open>The handler of \<open>GET /metrics/circuit-breakers\<close>.\<close>

definition metrics_handler :: "app \<Rightarrow> response \<times> app" where
  "metrics_handler a =
     (let (mp, bp) = getMetrics (breakers_userProfile a);
          (mc, bc) = getMetrics (breakers_content a)
      in (res_json (JObj [(''userProfileCircuitBreaker'', mp),
                          (''contentCircuitBreaker'', mc)]),
          a\<lparr> breakers_userProfile := bp, breakers_content := bc \<rparr>))"

section \<open>Concrete inputs\<close>

text \<open>
  Inputs at which the theorems below are instantiated: a stub that counts its
  invocations, a call that is rejected at once, a call that resolves at once, and the
  breaker of the content service after five failed calls.
\<close>

definition counting_stub :: "nat \<Rightarrow> json promise \<times> nat" where
  "counting_stub n = (Settles 0 (Inr (JStr ''ok'')), Suc n)"

definition failing_call :: "json call" where
  "failing_call = (0, Settles 0 (Inl (Error ''Service Error - 500'')), 1000)"

definition tripped :: breaker where
  "tripped = run (constructor ''content'' default_options)
               [failing_call, failing_call, failing_call, failing_call, failing_call]"

definition nearly_tripped :: breaker where
  "nearly_tripped = run (constructor ''content'' default_options)
               [failing_call, failing_call, failing_call, failing_call]"

definition fresh :: breaker where
  "fresh = constructor ''userProfile'' default_options"

definition ok_call :: "json call" where
  "ok_call = (0, Settles 0 (Inr (JStr ''ok'')), 0)"

definition slow_call :: "json call" where
  "slow_call = (0, Settles 3000 (Inr (JStr ''late'')), 2000)"

definition failing_stub :: "nat \<Rightarrow> json promise \<times> nat" where
  "failing_stub n = (Settles 0 (Inl (Error ''Service Error - 500'')), Suc n)"

definition alternating :: "json call list" where
  "alternating = [ok_call, failing_call, ok_call, slow_call, ok_call,
                  failing_call, ok_call, slow_call, ok_call, failing_call]"

definition twelve_calls :: "json call list" where
  "twelve_calls = [ok_call, ok_call, failing_call, ok_call, ok_call, slow_call,
                   ok_call, ok_call, ok_call, failing_call, ok_call, ok_call]"

text \<open>
  The tripped breaker once a request has been admitted after the cool-down, and after
  two successful trials.
\<close>

definition probing :: breaker where
  "probing = step tripped (Enter 31001)"

definition half_way :: breaker where
  "half_way = run tripped [(31001, Settles 0 (Inr (JStr ''ok'')), 31001),
                           (31002, Settles 0 (Inr (JStr ''ok'')), 31002)]"

text \<open>Module states and an environment for requests to the recommendations endpoint.\<close>

definition no_env :: env where
  "no_env = \<lparr> USER_PROFILE_URL = None, CONTENT_URL = None, TRENDING_URL = None \<rparr>"

definition profile_failing :: app where
  "profile_failing = initial_app\<lparr> serviceStates_user_profile := ''fail'' \<rparr>"

definition content_open_profile_failing :: app where
  "content_open_profile_failing =
     initial_app\<lparr> breakers_content := tripped, serviceStates_user_profile := ''fail'' \<rparr>"

definition tripped_profile :: breaker where
  "tripped_profile =
     run fresh [failing_call, failing_call, failing_call, failing_call, failing_call]"

definition profile_open_content_failing :: app where
  "profile_open_content_failing =
     initial_app\<lparr> breakers_userProfile := tripped_profile,
                  serviceStates_content := ''fail'' \<rparr>"

definition both_unwell :: app where
  "both_unwell =
     initial_app\<lparr> serviceStates_user_profile := ''slow'', serviceStates_content := ''fail'' \<rparr>"

text \<open>
  A breaker with a window of 50 and a rate threshold of 58 after 49 calls, 28 of them
  failed and never more than four in a row; and the breaker of the profile service after
  nine calls, four of them failed, and after nine calls, five of them failed.
\<close>

definition wide_options :: options where
  "wide_options =
     \<lparr> opt_timeout = None, opt_failureThreshold = None,
       opt_failureRateThreshold = Some 58, opt_failureRateWindow = Some 50,
       opt_openDuration = None, opt_halfOpenTrials = None \<rparr>"

definition seven_calls :: "json call list" where
  "seven_calls = [failing_call, failing_call, failing_call, failing_call, ok_call, ok_call, ok_call]"

definition borderline :: breaker where
  "borderline = run (constructor ''content'' wide_options)
     (seven_calls @ seven_calls @ seven_calls @ seven_calls @ seven_calls @ seven_calls @ seven_calls)"

definition nine_done :: breaker where
  "nine_done = run fresh [ok_call, failing_call, ok_call, slow_call, ok_call,
                          failing_call, ok_call, slow_call, ok_call]"

definition nine_worse :: breaker where
  "nine_worse = run fresh [failing_call, ok_call, slow_call, ok_call, failing_call,
                           ok_call, slow_call, ok_call, failing_call]"

section \<open>Number arithmetic at work\<close>

text \<open>
  The quotients 1 / 3 and 1 / 10 come out as the binary64 values with significands
  6004799503160661 and 7205759403792794.
\<close>

lemma one_third: "js_div 1 3 = 6004799503160661 / 2 ^ 54"
  by code_simp

lemma one_tenth: "js_div 1 10 = 7205759403792794 / 2 ^ 56"
  by code_simp

text \<open>
  Rounding is visible in the failure rate: 29 failures among 100 calls give a Number just
  below 29, so the rate the breaker compares with its threshold is not always the exact
  percentage. Three failures among ten give exactly 30.
\<close>

lemma rounded_below: "js_mul (js_div 29 100) 100 < 29"
  by code_simp

lemma three_of_ten: "js_mul (js_div 3 10) 100 = 30"
  by code_simp

text \<open>
  Each rounding moves a non-negative number by at most the fraction \<open>2 ^ -53\<close> of it, so
  the quotient followed by the product with 100 stays within \<open>300 / 2 ^ 53\<close> of the
  exact percentage.
\<close>

lemma round_half_even_near: "\<bar>of_int (round_half_even y) - y\<bar> \<le> 1 / 2"
proof -
  have "of_int \<lfloor>y\<rfloor> \<le> y" "y < of_int \<lfloor>y\<rfloor> + 1" by linarith+
  then show ?thesis
    by (auto simp: round_half_even_def Let_def)
qed

lemma round_half_even_nonneg: "0 \<le> y \<Longrightarrow> 0 \<le> round_half_even y"
  by (auto simp: round_half_even_def Let_def)

lemma binade_le:
  assumes "0 < x"
  shows "2 powi (binade x) \<le> x"
proof -
  obtain a b where q: "quotient_of x = (a, b)" by (cases "quotient_of x")
  then have b: "0 < b" and x: "x = of_int a / of_int b"
    using quotient_of_denom_pos quotient_of_div by blast+
  have a: "0 < a" using assms b x by (simp add: zero_less_divide_iff)
  let ?k = "bitlen a - bitlen b"
  show ?thesis
  proof (cases "(2::rat) powi ?k \<le> x")
    case True
    then show ?thesis by (simp add: binade_def q)
  next
    case False
    have la: "1 \<le> bitlen a" and lb: "1 \<le> bitlen b"
      using a b by (simp_all add: bitlen_alt_def)
    have alow: "(2::int) ^ nat (bitlen a - 1) \<le> a" using bitlen_bounds[OF a] by simp
    have bup: "b \<le> 2 ^ nat (bitlen b)" using bitlen_bounds[OF b] by simp
    have eq: "?k - 1 = (bitlen a - 1) - bitlen b" by linarith
    have "(2::rat) powi (?k - 1) = 2 powi (bitlen a - 1) / 2 powi (bitlen b)"
      unfolding eq by (rule power_int_diff) simp
    also have "\<dots> = 2 ^ nat (bitlen a - 1) / 2 ^ nat (bitlen b)"
      using la lb by (simp add: power_int_def)
    also have "\<dots> \<le> of_int a / of_int b"
    proof (rule frac_le)
      show "(2::rat) ^ nat (bitlen a - 1) \<le> of_int a"
        using alow by (metis of_int_le_iff of_int_numeral of_int_power)
      show "(0::rat) < of_int b" using b by simp
      show "(of_int b :: rat) \<le> 2 ^ nat (bitlen b)"
        using bup by (metis of_int_le_iff of_int_numeral of_int_power)
      show "(0::rat) \<le> of_int a" using a by simp
    qed
    finally have r: "(2::rat) powi (?k - 1) \<le> of_int a / of_int b" .
    have bin: "binade x = ?k - 1" using False by (simp add: binade_def q)
    show ?thesis unfolding bin using r x by simp
  qed
qed

lemma js_double_error:
  assumes "0 \<le> x"
  shows "\<bar>js_double x - x\<bar> \<le> x / 2 ^ 53" and "0 \<le> js_double x"
proof -
  have "\<bar>js_double x - x\<bar> \<le> x / 2 ^ 53 \<and> 0 \<le> js_double x"
  proof (cases "x = 0")
    case True
    then show ?thesis by (simp add: js_double_def)
  next
    case False
    then have pos: "0 < x" using assms by simp
    define s :: rat where "s = 2 powi (binade x - 52)"
    define m where "m = round_half_even (x / s)"
    have s: "0 < s" by (simp add: s_def)
    have fl: "js_double x = of_int m * s"
      using pos by (simp add: js_double_def Let_def s_def m_def)
    have "\<bar>of_int m - x / s\<bar> \<le> 1 / 2" unfolding m_def by (rule round_half_even_near)
    then have "\<bar>of_int m - x / s\<bar> * s \<le> (1 / 2) * s"
      using s by (simp add: mult_right_mono)
    moreover have "of_int m * s - x = (of_int m - x / s) * s"
      using s by (simp add: field_simps)
    then have "\<bar>of_int m - x / s\<bar> * s = \<bar>of_int m * s - x\<bar>"
      using s by (simp add: abs_mult)
    ultimately have e1: "\<bar>of_int m * s - x\<bar> \<le> s / 2" by simp
    have "s = 2 powi (binade x) / 2 ^ 52"
      by (simp add: s_def power_int_diff)
    then have "s / 2 = 2 powi (binade x) / 2 ^ 53" by simp
    also have "\<dots> \<le> x / 2 ^ 53"
      using binade_le[OF pos] by (simp add: divide_right_mono)
    finally have "\<bar>of_int m * s - x\<bar> \<le> x / 2 ^ 53" using e1 by simp
    moreover have "0 \<le> m" unfolding m_def using pos s by (intro round_half_even_nonneg) simp
    ultimately show ?thesis using s by (simp add: fl)
  qed
  then show "\<bar>js_double x - x\<bar> \<le> x / 2 ^ 53" and "0 \<le> js_double x" by simp_all
qed

lemma percent_error:
  assumes "0 < n" and "f \<le> n"
  shows "\<bar>js_mul (js_div (of_nat f) (of_nat n)) 100 - 100 * of_nat f / of_nat n\<bar> \<le> 300 / 2 ^ 53"
proof -
  define q :: rat where "q = of_nat f / of_nat n"
  define x1 where "x1 = js_double q"
  define x2 where "x2 = js_double (x1 * 100)"
  have q0: "0 \<le> q" by (simp add: q_def)
  have q1: "q \<le> 1" using assms by (simp add: q_def)
  have e1: "\<bar>x1 - q\<bar> \<le> q / 2 ^ 53" and p1: "0 \<le> x1"
    unfolding x1_def using js_double_error[OF q0] by simp_all
  have "0 \<le> x1 * 100" using p1 by simp
  then have e2: "\<bar>x2 - x1 * 100\<bar> \<le> (x1 * 100) / 2 ^ 53"
    unfolding x2_def by (rule js_double_error)
  have "\<bar>x2 - 100 * q\<bar> \<le> 300 / 2 ^ 53"
    using e1 e2 q0 q1 unfolding abs_diff_le_iff by (simp; linarith)
  then show ?thesis
    by (simp add: js_mul_def js_div_def x2_def x1_def q_def)
qed

section \<open>Properties of the circuit breaker\<close>

lemma after_call:
  "after b (t0, p, t1) = fst (snd (execute b (\<lambda>w. (p, w)) () t0 t1))"
  by (simp add: after_def)

lemma tripped_eq:
  "tripped = \<lparr> name = ''content'', state = OPEN, failureCount = 5, successCount = 0,
       lastFailureTime = Some 1000, timeout = 2000, failureThreshold = 5,
       failureRateThreshold = 50, failureRateWindow = 10, openDuration = 30000,
       halfOpenTrials = 3, trialCount = 0,
       requestHistory = [False, False, False, False, False] \<rparr>"
  by (simp add: tripped_def constructor_def default_options_def failing_call_def
      after_call execute_def attempt_def onFailure_def record_outcome_def Let_def)

lemma nearly_tripped_eq:
  "nearly_tripped = \<lparr> name = ''content'', state = CLOSED, failureCount = 4, successCount = 0,
       lastFailureTime = Some 1000, timeout = 2000, failureThreshold = 5,
       failureRateThreshold = 50, failureRateWindow = 10, openDuration = 30000,
       halfOpenTrials = 3, trialCount = 0,
       requestHistory = [False, False, False, False] \<rparr>"
  by (simp add: nearly_tripped_def constructor_def default_options_def failing_call_def
      after_call execute_def attempt_def onFailure_def record_outcome_def Let_def)

lemma fresh_eq:
  "fresh = \<lparr> name = ''userProfile'', state = CLOSED, failureCount = 0, successCount = 0,
       lastFailureTime = None, timeout = 2000, failureThreshold = 5,
       failureRateThreshold = 50, failureRateWindow = 10, openDuration = 30000,
       halfOpenTrials = 3, trialCount = 0, requestHistory = [] \<rparr>"
  by (simp add: fresh_def constructor_def default_options_def)

subsection \<open>Configuration is never assigned\<close>

lemma config_onSuccess: "config (onSuccess b) = config b"
  by (simp add: onSuccess_def config_def Let_def)

lemma config_onFailure: "config (onFailure b t) = config b"
  by (simp add: onFailure_def config_def Let_def)

lemma config_admit: "admit b t0 = Some b' \<Longrightarrow> config b' = config b"
  by (auto simp: admit_def config_def split: if_splits)

lemma execute_admit:
  "execute b fn w t0 t1 =
     (case admit b t0 of None \<Rightarrow> (Inl (open_error b), b, w) | Some b' \<Rightarrow> attempt b' fn w t1)"
  by (simp add: execute_def admit_def)

lemma after_admit:
  "after b (t0, p, t1) =
     (case admit b t0 of
        None \<Rightarrow> b
      | Some b' \<Rightarrow> (if isl (race (timeout b) p) then onFailure b' t1 else onSuccess b'))"
  by (auto simp: after_call execute_def admit_def attempt_def split: sum.splits)

lemma config_after: "config (after b c) = config b"
  by (cases c) (auto simp: after_admit config_onSuccess config_onFailure
      dest: config_admit split: option.splits)

lemma config_run: "config (run b cs) = config b"
  by (induction cs arbitrary: b) (simp_all add: config_after)

lemma config_fields:
  assumes "config b' = config b"
  shows "name b' = name b" "timeout b' = timeout b" "failureThreshold b' = failureThreshold b"
    "failureRateThreshold b' = failureRateThreshold b" "failureRateWindow b' = failureRateWindow b"
    "openDuration b' = openDuration b" "halfOpenTrials b' = halfOpenTrials b"
  using assms by (simp_all add: config_def)

lemma call_fails_config: "config b' = config b \<Longrightarrow> call_fails b' c = call_fails b c"
  by (simp add: call_fails_def config_def)

subsection \<open>The two recording methods, field by field\<close>

lemma onFailure_history:
  "requestHistory (onFailure b t) = record_outcome (failureRateWindow b) False (requestHistory b)"
  by (simp add: onFailure_def Let_def)

lemma onFailure_count: "failureCount (onFailure b t) = failureCount b + 1"
  by (simp add: onFailure_def Let_def)

lemma onSuccess_history:
  "requestHistory (onSuccess b) = record_outcome (failureRateWindow b) True (requestHistory b)"
  by (simp add: onSuccess_def Let_def)

lemma onFailure_CLOSED:
  "state b = CLOSED \<Longrightarrow>
   state (onFailure b t) =
     (if failureThreshold b \<le> failureCount b + 1
         \<or> (of_nat (failureRateThreshold b)
               \<le> failureRate (record_outcome (failureRateWindow b) False (requestHistory b))
             \<and> failureRateWindow b
               \<le> length (record_outcome (failureRateWindow b) False (requestHistory b)))
      then OPEN else CLOSED)"
  by (simp add: onFailure_def Let_def)

lemma onFailure_HALF_OPEN:
  "state b = HALF_OPEN \<Longrightarrow> state (onFailure b t) = OPEN \<and> trialCount (onFailure b t) = 0"
  by (simp add: onFailure_def Let_def)

lemma onFailure_OPEN: "state b = OPEN \<Longrightarrow> state (onFailure b t) = OPEN"
  by (simp add: onFailure_def Let_def)

lemma onSuccess_CLOSED:
  "state b = CLOSED \<Longrightarrow> state (onSuccess b) = CLOSED \<and> failureCount (onSuccess b) = 0"
  by (simp add: onSuccess_def Let_def)

lemma admit_not_OPEN: "state b \<noteq> OPEN \<Longrightarrow> admit b t0 = Some b"
  by (simp add: admit_def)

lemma admit_OPEN:
  "state b = OPEN \<Longrightarrow> admit b t0 = Some b' \<Longrightarrow> b' = b\<lparr>state := HALF_OPEN, trialCount := 0\<rparr>"
  by (auto simp: admit_def split: if_splits)

subsection \<open>Runs of failing calls\<close>

lemma fail_after_OPEN:
  "state b = OPEN \<Longrightarrow> call_fails b c \<Longrightarrow> state (after b c) = OPEN"
  by (cases c) (auto simp: after_admit call_fails_def onFailure_HALF_OPEN
      dest!: admit_OPEN split: option.splits)

lemma fail_run_OPEN:
  "state b = OPEN \<Longrightarrow> \<forall>c \<in> set cs. call_fails b c \<Longrightarrow> state (run b cs) = OPEN"
proof (induction cs arbitrary: b)
  case Nil
  then show ?case by simp
next
  case (Cons c cs)
  have "state (after b c) = OPEN"
    using Cons.prems by (simp add: fail_after_OPEN)
  moreover have "\<forall>c' \<in> set cs. call_fails (after b c) c'"
    using Cons.prems by (simp add: call_fails_config[OF config_after])
  ultimately show ?case
    using Cons.IH by simp
qed

lemma fail_after_CLOSED:
  assumes "state b = CLOSED" and "call_fails b c"
  shows "after b c = onFailure b (snd (snd c))"
  using assms by (cases c) (simp add: after_admit call_fails_def admit_not_OPEN)

lemma consecutive_failures_open:
  "state b = CLOSED \<Longrightarrow> \<forall>c \<in> set cs. call_fails b c \<Longrightarrow> cs \<noteq> [] \<Longrightarrow>
   failureThreshold b \<le> failureCount b + length cs \<Longrightarrow> state (run b cs) = OPEN"
proof (induction cs arbitrary: b)
  case Nil
  then show ?case by simp
next
  case (Cons c cs)
  let ?b = "after b c"
  have eq: "?b = onFailure b (snd (snd c))"
    using Cons.prems by (simp add: fail_after_CLOSED)
  have cfg: "config ?b = config b" by (rule config_after)
  have fails: "\<forall>c' \<in> set cs. call_fails ?b c'"
    using Cons.prems by (simp add: call_fails_config[OF cfg])
  show ?case
  proof (cases "state ?b = OPEN")
    case True
    then show ?thesis using fails by (simp add: fail_run_OPEN)
  next
    case False
    then have closed: "state ?b = CLOSED" and low: "failureCount b + 1 < failureThreshold b"
      using Cons.prems(1) by (auto simp: eq onFailure_CLOSED split: if_splits)
    have cnt: "failureCount ?b = failureCount b + 1"
      by (simp add: eq onFailure_count)
    have "cs \<noteq> []" using low Cons.prems(4) by auto
    moreover have "failureThreshold ?b \<le> failureCount ?b + length cs"
      using Cons.prems(4) by (simp add: cnt config_fields[OF cfg])
    ultimately show ?thesis
      using Cons.IH[OF closed fails] by simp
  qed
qed

subsection \<open>The open circuit\<close>

text \<open>
  Claim C2. A breaker in state \<open>OPEN\<close> whose last failure is at most \<open>openDuration\<close>
  milliseconds old answers \<open>execute\<close> with the error "Circuit breaker <name> is OPEN",
  and neither the breaker nor the world of the wrapped function changes: the function
  is not invoked, whatever it is. Once more than \<open>openDuration\<close> has passed, the breaker
  is set to \<open>HALF_OPEN\<close> with \<open>trialCount = 0\<close> and the call is made in that state: the
  caller gets the outcome of the race, and the world is the one the function leaves.
\<close>

theorem open_circuit:
  "state b = OPEN \<longrightarrow>
     (elapsed t0 (lastFailureTime b) \<le> int (openDuration b) \<longrightarrow>
        execute b fn w t0 t1 = (Inl (open_error b), b, w)) \<and>
     (int (openDuration b) < elapsed t0 (lastFailureTime b) \<longrightarrow>
        admit b t0 = Some (b\<lparr> state := HALF_OPEN, trialCount := 0 \<rparr>) \<and>
        execute b fn w t0 t1 = attempt (b\<lparr> state := HALF_OPEN, trialCount := 0 \<rparr>) fn w t1 \<and>
        fst (execute b fn w t0 t1) = race (timeout b) (fst (fn w)) \<and>
        snd (snd (execute b fn w t0 t1)) = snd (fn w))"
  by (simp add: execute_def admit_def attempt_def split: prod.splits sum.splits)

theorem open_circuit_witness:
  "state tripped = OPEN
   \<and> elapsed 31000 (lastFailureTime tripped) \<le> int (openDuration tripped)
   \<and> execute tripped counting_stub 0 31000 31000
       = (Inl (Error ''Circuit breaker content is OPEN''), tripped, 0)
   \<and> int (openDuration tripped) < elapsed 31001 (lastFailureTime tripped)
   \<and> state (fst (snd (execute tripped counting_stub 0 31001 31001))) = HALF_OPEN
   \<and> trialCount (fst (snd (execute tripped counting_stub 0 31001 31001))) = 1
   \<and> fst (execute tripped counting_stub 0 31001 31001) = Inr (JStr ''ok'')
   \<and> snd (snd (execute tripped counting_stub 0 31001 31001)) = 1"
  using open_circuit [of tripped 31000 counting_stub 0 31000]
        open_circuit [of tripped 31001 counting_stub 0 31001]
  by (simp add: tripped_eq open_error_def counting_stub_def attempt_def onSuccess_def
        record_outcome_def Let_def)

text \<open>
  Claim C9. A call turned away by an open breaker is not recorded: the breaker after
  \<open>execute\<close> is the breaker before it, so \<open>requestHistory\<close>, \<open>state\<close>, \<open>failureCount\<close>,
  \<open>successCount\<close>, \<open>trialCount\<close> and \<open>lastFailureTime\<close> keep their values.
\<close>

theorem rejection_not_recorded:
  assumes "state b = OPEN" and "elapsed t0 (lastFailureTime b) \<le> int (openDuration b)"
  shows "fst (snd (execute b fn w t0 t1)) = b
     \<and> requestHistory (fst (snd (execute b fn w t0 t1))) = requestHistory b
     \<and> state (fst (snd (execute b fn w t0 t1))) = state b
     \<and> failureCount (fst (snd (execute b fn w t0 t1))) = failureCount b
     \<and> successCount (fst (snd (execute b fn w t0 t1))) = successCount b
     \<and> trialCount (fst (snd (execute b fn w t0 t1))) = trialCount b
     \<and> lastFailureTime (fst (snd (execute b fn w t0 t1))) = lastFailureTime b"
  using assms by (simp add: execute_def)

theorem rejection_not_recorded_witness:
  "state tripped = OPEN
   \<and> elapsed 2500 (lastFailureTime tripped) \<le> int (openDuration tripped)
   \<and> fst (snd (execute tripped counting_stub 7 2500 2600)) = tripped
   \<and> requestHistory (fst (snd (execute tripped counting_stub 7 2500 2600)))
       = [False, False, False, False, False]"
  using rejection_not_recorded [of tripped 2500 counting_stub 7 2600]
  by (simp add: tripped_eq)

subsection \<open>Tripping\<close>

lemma record_outcome_length:
  "length h \<le> w \<Longrightarrow> length (record_outcome w s h) \<le> w"
  by (simp add: record_outcome_def Let_def)

lemma record_outcome_suffix:
  assumes "length (old @ xs) \<le> w" and "length xs < w"
  shows "\<exists>old'. record_outcome w s (old @ xs) = old' @ xs @ [s]"
proof (cases "w < length (old @ xs @ [s])")
  case True
  then have "old \<noteq> []" using assms by auto
  then have "tl (old @ xs @ [s]) = tl old @ xs @ [s]" by simp
  then show ?thesis using True by (auto simp: record_outcome_def Let_def)
next
  case False
  then show ?thesis by (auto simp: record_outcome_def Let_def)
qed

lemma run_snoc: "run b (cs @ [c]) = after (run b cs) c"
  by (induction cs arbitrary: b) simp_all

lemma after_CLOSED:
  assumes "state b = CLOSED"
  shows "after b c = (if call_fails b c then onFailure b (snd (snd c)) else onSuccess b)"
  using assms by (cases c) (simp add: after_admit call_fails_def admit_not_OPEN)

lemma after_CLOSED_history:
  assumes "state b = CLOSED"
  shows "requestHistory (after b c)
         = record_outcome (failureRateWindow b) (\<not> call_fails b c) (requestHistory b)"
  using assms by (simp add: after_CLOSED onFailure_history onSuccess_history)

lemma after_CLOSED_state:
  assumes "state b = CLOSED" and "state (after b c) \<noteq> OPEN"
  shows "state (after b c) = CLOSED"
  using assms by (auto simp: after_CLOSED onFailure_CLOSED onSuccess_CLOSED split: if_splits)

lemma stays_closed:
  assumes "state b = CLOSED"
    and "length (requestHistory b) \<le> failureRateWindow b"
    and "length cs \<le> failureRateWindow b"
    and "\<forall>k \<le> length cs. state (run b (take k cs)) \<noteq> OPEN"
  shows "state (run b cs) = CLOSED
       \<and> (\<exists>old. requestHistory (run b cs) = old @ outcomes b cs)
       \<and> length (requestHistory (run b cs)) \<le> failureRateWindow b"
  using assms(3,4)
proof (induction cs rule: rev_induct)
  case Nil
  then show ?case using assms(1,2) by (simp add: outcomes_def)
next
  case (snoc c cs)
  let ?b = "run b cs"
  have "\<forall>k \<le> length cs. state (run b (take k cs)) \<noteq> OPEN"
  proof (intro allI impI)
    fix k assume "k \<le> length cs"
    then show "state (run b (take k cs)) \<noteq> OPEN"
      using snoc.prems(2)[rule_format, of k] by simp
  qed
  with snoc have closed: "state ?b = CLOSED"
    and len: "length (requestHistory ?b) \<le> failureRateWindow b"
    and "\<exists>old. requestHistory ?b = old @ outcomes b cs"
    by simp_all
  then obtain old where old: "requestHistory ?b = old @ outcomes b cs" by blast
  have cfg: "config ?b = config b" by (rule config_run)
  have "state (run b (cs @ [c])) \<noteq> OPEN"
    using snoc.prems(2)[rule_format, of "length (cs @ [c])"] by simp
  then have st: "state (run b (cs @ [c])) = CLOSED"
    using closed by (simp add: run_snoc after_CLOSED_state)
  have h: "requestHistory (run b (cs @ [c]))
           = record_outcome (failureRateWindow b) (\<not> call_fails b c) (old @ outcomes b cs)"
    using closed old
    by (simp add: run_snoc after_CLOSED_history config_fields[OF cfg] call_fails_config[OF cfg])
  have "length (outcomes b cs) < failureRateWindow b"
    using snoc.prems(1) by (simp add: outcomes_def)
  then obtain old' where
    "record_outcome (failureRateWindow b) (\<not> call_fails b c) (old @ outcomes b cs)
     = old' @ outcomes b cs @ [\<not> call_fails b c]"
    using record_outcome_suffix len old by metis
  then have "requestHistory (run b (cs @ [c])) = old' @ outcomes b (cs @ [c])"
    using h by (simp add: outcomes_def)
  moreover have "length (requestHistory (run b (cs @ [c]))) \<le> failureRateWindow b"
    using len old h record_outcome_length by metis
  ultimately show ?case using st by blast
qed

lemma failures_outcomes:
  "failures (outcomes b cs) = length (filter (call_fails b) cs)"
  by (induction cs) (simp_all add: failures_def outcomes_def)

lemma failures_le_length: "failures h \<le> length h"
  by (simp add: failures_def)

text \<open>
  For a history of ten entries, the window of both breakers of the service, the rate as
  computed is the exact percentage.
\<close>

lemma js_rate_0: "js_mul (js_div 0 10) 100 = 0"
  by (simp add: js_mul_def js_div_def js_double_def)

lemma js_rate_10_exact:
  "f \<in> {1, 2, 3, 4, 5, 6, 7, 8, 9, 10}
   \<Longrightarrow> js_mul (js_div (of_nat f) (of_nat (10::nat))) 100 = of_nat (10 * f)"
  apply (elim insertE emptyE)
  by (simp_all, code_simp+)

lemma rate_of_ten:
  assumes "length h = 10"
  shows "failureRate h = of_nat (10 * failures h)"
proof (cases "failures h = 0")
  case True
  then show ?thesis using assms by (simp add: failureRate_def percentFailed_def js_rate_0)
next
  case False
  have "failures h \<le> 10" using failures_le_length[of h] assms by simp
  with False have "failures h \<in> {1, 2, 3, 4, 5, 6, 7, 8, 9, 10}" by (simp, arith)
  then show ?thesis
    using js_rate_10_exact[of "failures h"] assms by (simp add: failureRate_def percentFailed_def)
qed

lemma half_of_ten_failed:
  assumes "length h = 10" and "5 \<le> failures h"
  shows "50 \<le> failureRate h"
proof -
  have "50 \<le> 10 * failures h" using assms(2) by simp
  then have "(of_nat 50 :: rat) \<le> of_nat (10 * failures h)"
    by (simp only: of_nat_le_iff)
  then show ?thesis using rate_of_ten[OF assms(1)] by simp
qed

lemma ten_calls_open:
  assumes "state b = CLOSED"
    and "failureRateWindow b = 10" and "failureRateThreshold b = 50"
    and "length (requestHistory b) \<le> 10"
    and "length cs = 10"
    and "5 \<le> length (filter (call_fails b) cs)"
    and "call_fails b (last cs)"
  shows "\<exists>k \<le> 10. state (run b (take k cs)) = OPEN"
proof (rule ccontr)
  assume "\<not> ?thesis"
  then have never: "\<forall>k \<le> length cs. state (run b (take k cs)) \<noteq> OPEN"
    using assms(5) by simp
  have all: "state (run b cs) = CLOSED \<and> (\<exists>old. requestHistory (run b cs) = old @ outcomes b cs)
       \<and> length (requestHistory (run b cs)) \<le> failureRateWindow b"
    using stays_closed[OF assms(1) _ _ never] assms(2,4,5) by simp
  then obtain old where old: "requestHistory (run b cs) = old @ outcomes b cs" by blast
  have "length (old @ outcomes b cs) \<le> 10" using all old assms(2) by simp
  then have "old = []" using assms(5) by (simp add: outcomes_def)
  then have hist: "requestHistory (run b cs) = outcomes b cs" using old by simp
  have rate: "50 \<le> failureRate (outcomes b cs)"
    using assms(5,6) by (intro half_of_ten_failed) (simp_all add: outcomes_def failures_outcomes[unfolded outcomes_def])
  obtain cs' c where cs: "cs = cs' @ [c]"
    using assms(5) by (cases cs rule: rev_cases) auto
  have never': "\<forall>k \<le> length cs'. state (run b (take k cs')) \<noteq> OPEN"
  proof (intro allI impI)
    fix k assume "k \<le> length cs'"
    then show "state (run b (take k cs')) \<noteq> OPEN"
      using never[rule_format, of k] cs by simp
  qed
  have closed': "state (run b cs') = CLOSED"
    using stays_closed[OF assms(1) _ _ never'] assms(2,4,5) cs by simp
  have cfg: "config (run b cs') = config b" by (rule config_run)
  have fails: "call_fails (run b cs') c"
    using assms(7) cs by (simp add: call_fails_config[OF cfg])
  have step: "run b cs = onFailure (run b cs') (snd (snd c))"
    using closed' fails by (simp add: cs run_snoc after_CLOSED)
  have "state (run b cs) = OPEN"
    using closed' rate hist assms(2,3,5)
    by (simp add: step onFailure_CLOSED onFailure_history config_fields[OF cfg] outcomes_def)
  then show False using all by simp
qed

text \<open>
  How the computed rate compares with the exact percentage: above the threshold when the
  exact percentage exceeds it, below when the exact percentage is below it, for histories
  of up to \<open>2 ^ 44\<close> entries. When the two are equal, rounding decides.
\<close>

lemma failureRate_error:
  assumes "h \<noteq> []"
  shows "\<bar>failureRate h - 100 * of_nat (failures h) / of_nat (length h)\<bar> \<le> 300 / 2 ^ 53"
  using assms percent_error[of "length h" "failures h"] failures_le_length[of h]
  by (simp add: failureRate_def percentFailed_def)

lemma inverse_of_length:
  assumes "0 < n" and "n \<le> 2 ^ 44"
  shows "(512::rat) / 2 ^ 53 \<le> 1 / of_nat n"
proof -
  have "(of_nat n :: rat) \<le> of_nat (2 ^ 44)" using assms(2) by (simp only: of_nat_le_iff)
  then have "(of_nat n :: rat) \<le> 2 ^ 44" by simp
  moreover have "(0::rat) < of_nat n" using assms(1) by simp
  ultimately have "(1::rat) / 2 ^ 44 \<le> 1 / of_nat n"
    by (intro divide_left_mono) simp_all
  then show ?thesis by simp
qed

lemma rate_above:
  assumes "h \<noteq> []" and "length h \<le> 2 ^ 44"
    and "T * length h < 100 * failures h"
  shows "of_nat T \<le> failureRate h"
proof -
  define n where "n = length h"
  define f where "f = failures h"
  define i :: rat where "i = 1 / of_nat n"
  have n: "0 < n" using assms(1) by (simp add: n_def)
  have i: "512 / 2 ^ 53 \<le> i" unfolding i_def using n assms(2) by (intro inverse_of_length) (simp_all add: n_def)
  have ni: "of_nat n * i = 1" using n by (simp add: i_def)
  have "T * n + 1 \<le> 100 * f" using assms(3) by (simp add: n_def f_def)
  then have "(of_nat (T * n + 1) :: rat) \<le> of_nat (100 * f)" by (simp only: of_nat_le_iff)
  then have "(of_nat T * of_nat n + 1) * i \<le> (100 * of_nat f) * i"
    using i by (intro mult_right_mono) simp_all
  then have "of_nat T * (of_nat n * i) + i \<le> 100 * of_nat f * i"
    by (simp add: algebra_simps)
  then have low: "of_nat T + i \<le> 100 * of_nat f / of_nat n"
    unfolding ni by (simp add: i_def)
  have "\<bar>failureRate h - 100 * of_nat f / of_nat n\<bar> \<le> 300 / 2 ^ 53"
    using failureRate_error[OF assms(1)] by (simp add: n_def f_def)
  then show ?thesis using low i unfolding abs_diff_le_iff by (simp; linarith)
qed

lemma rate_below:
  assumes "h \<noteq> []" and "length h \<le> 2 ^ 44"
    and "100 * failures h < T * length h"
  shows "failureRate h < of_nat T"
proof -
  define n where "n = length h"
  define f where "f = failures h"
  define i :: rat where "i = 1 / of_nat n"
  have n: "0 < n" using assms(1) by (simp add: n_def)
  have i: "512 / 2 ^ 53 \<le> i" unfolding i_def using n assms(2) by (intro inverse_of_length) (simp_all add: n_def)
  have ni: "of_nat n * i = 1" using n by (simp add: i_def)
  have "100 * f + 1 \<le> T * n" using assms(3) by (simp add: n_def f_def)
  then have "(of_nat (100 * f + 1) :: rat) \<le> of_nat (T * n)" by (simp only: of_nat_le_iff)
  then have "(100 * of_nat f + 1) * i \<le> (of_nat T * of_nat n) * i"
    using i by (intro mult_right_mono) simp_all
  then have "100 * of_nat f * i + i \<le> of_nat T * (of_nat n * i)"
    by (simp add: algebra_simps)
  then have up: "100 * of_nat f / of_nat n + i \<le> of_nat T"
    unfolding ni by (simp add: i_def)
  have "\<bar>failureRate h - 100 * of_nat f / of_nat n\<bar> \<le> 300 / 2 ^ 53"
    using failureRate_error[OF assms(1)] by (simp add: n_def f_def)
  then show ?thesis using up i unfolding abs_diff_le_iff by (simp; linarith)
qed

lemma borderline_eq:
  "borderline = \<lparr> name = ''content'', state = CLOSED, failureCount = 0, successCount = 21,
       lastFailureTime = Some 1000, timeout = 2000, failureThreshold = 5,
       failureRateThreshold = 58, failureRateWindow = 50, openDuration = 30000,
       halfOpenTrials = 3, trialCount = 0,
       requestHistory =
         [False, False, False, False, True, True, True,
          False, False, False, False, True, True, True,
          False, False, False, False, True, True, True,
          False, False, False, False, True, True, True,
          False, False, False, False, True, True, True,
          False, False, False, False, True, True, True,
          False, False, False, False, True, True, True] \<rparr>"
  by (simp add: borderline_def seven_calls_def constructor_def wide_options_def
      failing_call_def ok_call_def after_call execute_def attempt_def onFailure_def onSuccess_def
      record_outcome_def Let_def)

lemma nine_done_eq:
  "nine_done = \<lparr> name = ''userProfile'', state = CLOSED, failureCount = 0, successCount = 5,
       lastFailureTime = Some 2000, timeout = 2000, failureThreshold = 5,
       failureRateThreshold = 50, failureRateWindow = 10, openDuration = 30000,
       halfOpenTrials = 3, trialCount = 0,
       requestHistory = [True, False, True, False, True, False, True, False, True] \<rparr>"
  by (simp add: nine_done_def fresh_eq ok_call_def failing_call_def slow_call_def
      after_call execute_def attempt_def onFailure_def onSuccess_def record_outcome_def Let_def)

lemma nine_worse_eq:
  "nine_worse = \<lparr> name = ''userProfile'', state = CLOSED, failureCount = 1, successCount = 4,
       lastFailureTime = Some 1000, timeout = 2000, failureThreshold = 5,
       failureRateThreshold = 50, failureRateWindow = 10, openDuration = 30000,
       halfOpenTrials = 3, trialCount = 0,
       requestHistory = [False, True, False, True, False, True, False, True, False] \<rparr>"
  by (simp add: nine_worse_def fresh_eq ok_call_def failing_call_def slow_call_def
      after_call execute_def attempt_def onFailure_def onSuccess_def record_outcome_def Let_def)

lemma twenty_nine_of_fifty: "js_mul (js_div 29 50) 100 < 58"
  by code_simp

lemma below_58: "\<not> 58 \<le> js_mul (js_div 29 50) 100"
  using twenty_nine_of_fifty by simp

text \<open>
  Claim C1 as stated. The statement "a failing call on a \<open>CLOSED\<close> breaker opens it
  whenever the history holds \<open>failureRateWindow\<close> entries and the percentage of failures
  in it is at least \<open>failureRateThreshold\<close>" fails: with a window of 50 and a threshold of
  58, the failing call that brings the history to 29 failures among 50 entries, exactly
  58 percent, leaves the breaker \<open>CLOSED\<close>, because the computed rate is just below 58.
\<close>

theorem exact_percentage_counterexample:
  "state borderline = CLOSED
   \<and> isl (fst (execute borderline failing_stub 0 1500 1600))
   \<and> failureCount (fst (snd (execute borderline failing_stub 0 1500 1600))) = 1
   \<and> length (requestHistory (fst (snd (execute borderline failing_stub 0 1500 1600)))) = 50
   \<and> failures (requestHistory (fst (snd (execute borderline failing_stub 0 1500 1600)))) = 29
   \<and> failureRateWindow borderline = 50
   \<and> failureRateThreshold borderline = 58
   \<and> failureRateThreshold borderline
         * length (requestHistory (fst (snd (execute borderline failing_stub 0 1500 1600))))
       \<le> 100 * failures (requestHistory (fst (snd (execute borderline failing_stub 0 1500 1600))))
   \<and> state (fst (snd (execute borderline failing_stub 0 1500 1600))) = CLOSED"
  by (simp add: borderline_eq execute_def attempt_def failing_stub_def onFailure_def
      record_outcome_def Let_def failureRate_def percentFailed_def failures_def
      below_58)

text \<open>
  Claim C1, amended. A failing \<open>execute\<close> on a \<open>CLOSED\<close> breaker records the failure
  (\<open>failureCount\<close> grows by one, \<open>False\<close> enters the history) and leaves the breaker
  \<open>OPEN\<close> exactly when \<open>failureCount\<close> has reached \<open>failureThreshold\<close>, or the history
  holds \<open>failureRateWindow\<close> entries and the rate computed in Number arithmetic has
  reached \<open>failureRateThreshold\<close>. In terms of the exact percentage of failures: the
  breaker opens if the count has reached its threshold or the window is full and the
  percentage exceeds the rate threshold, and it opens only if the count has reached its
  threshold or the window is full and the percentage is at least the rate threshold;
  with a history of ten entries it opens exactly when the count has reached its
  threshold or the window is full and the percentage is at least the rate threshold.
  With a threshold of 5, five failing calls in a row on a \<open>CLOSED\<close> breaker leave it
  \<open>OPEN\<close>, whatever its history. With a window of 10 and a rate threshold of 50, ten
  calls of which at least five fail and the last one fails bring a \<open>CLOSED\<close> breaker to
  \<open>OPEN\<close>, at the tenth call at the latest.
\<close>

theorem trip_condition:
  "(\<forall>b (fn :: 'w \<Rightarrow> 'a promise \<times> 'w) w t0 t1.
      state b = CLOSED \<and> isl (fst (execute b fn w t0 t1)) \<longrightarrow>
        (let b' = fst (snd (execute b fn w t0 t1));
             h' = requestHistory b';
             consecutive = (failureThreshold b \<le> failureCount b');
             full = (failureRateWindow b \<le> length h')
         in failureCount b' = failureCount b + 1
          \<and> h' = record_outcome (failureRateWindow b) False (requestHistory b)
          \<and> (state b' = OPEN \<longleftrightarrow>
                 consecutive \<or> (full \<and> of_nat (failureRateThreshold b) \<le> failureRate h'))
          \<and> (length h' \<le> 2 ^ 44 \<longrightarrow>
                (consecutive \<or> (full \<and> failureRateThreshold b * length h' < 100 * failures h')
                   \<longrightarrow> state b' = OPEN)
              \<and> (state b' = OPEN
                   \<longrightarrow> consecutive
                       \<or> (full \<and> failureRateThreshold b * length h' \<le> 100 * failures h')))
          \<and> (length h' = 10 \<longrightarrow>
                (state b' = OPEN \<longleftrightarrow>
                   consecutive \<or> (full \<and> failureRateThreshold b \<le> 10 * failures h')))))
   \<and> (\<forall>b (cs :: 'a call list).
        state b = CLOSED \<and> failureThreshold b = 5 \<and> length cs = 5
        \<and> (\<forall>c \<in> set cs. call_fails b c) \<longrightarrow> state (run b cs) = OPEN)
   \<and> (\<forall>b (cs :: 'a call list).
        state b = CLOSED \<and> failureRateWindow b = 10 \<and> failureRateThreshold b = 50
        \<and> length (requestHistory b) \<le> 10 \<and> length cs = 10
        \<and> 5 \<le> length (filter (call_fails b) cs) \<and> call_fails b (last cs)
        \<longrightarrow> (\<exists>k \<le> 10. state (run b (take k cs)) = OPEN))"
proof (intro conjI allI impI)
  fix b :: breaker and fn :: "'w \<Rightarrow> 'a promise \<times> 'w" and w t0 t1
  assume a: "state b = CLOSED \<and> isl (fst (execute b fn w t0 t1))"
  define b' where "b' = fst (snd (execute b fn w t0 t1))"
  define h' where "h' = requestHistory b'"
  have ex: "b' = onFailure b t1"
    using a by (auto simp: b'_def execute_def attempt_def split: prod.splits sum.splits)
  have cnt: "failureCount b' = failureCount b + 1"
    by (simp add: ex onFailure_count)
  have hist: "h' = record_outcome (failureRateWindow b) False (requestHistory b)"
    by (simp add: h'_def ex onFailure_history)
  have opens: "state b' = OPEN \<longleftrightarrow>
      failureThreshold b \<le> failureCount b'
      \<or> (failureRateWindow b \<le> length h' \<and> of_nat (failureRateThreshold b) \<le> failureRate h')"
    using a by (auto simp: h'_def ex onFailure_CLOSED onFailure_count onFailure_history)
  have above: "of_nat (failureRateThreshold b) \<le> failureRate h'"
    if "length h' \<le> 2 ^ 44" "failureRateThreshold b * length h' < 100 * failures h'"
  proof -
    have "h' \<noteq> []" using that(2) by (auto simp: failures_def)
    then show ?thesis using that by (intro rate_above)
  qed
  have below: "failureRateThreshold b * length h' \<le> 100 * failures h'"
    if "length h' \<le> 2 ^ 44" "of_nat (failureRateThreshold b) \<le> failureRate h'"
  proof (rule ccontr)
    assume "\<not> ?thesis"
    then have lt: "100 * failures h' < failureRateThreshold b * length h'" by simp
    then have "h' \<noteq> []" by auto
    then have "failureRate h' < of_nat (failureRateThreshold b)"
      using that(1) lt by (intro rate_below)
    then show False using that(2) by simp
  qed
  have ten: "of_nat (failureRateThreshold b) \<le> failureRate h'
             \<longleftrightarrow> failureRateThreshold b \<le> 10 * failures h'"
    if "length h' = 10"
    using rate_of_ten[OF that] by (simp only: of_nat_le_iff)
  show "let b' = fst (snd (execute b fn w t0 t1));
             h' = requestHistory b';
             consecutive = (failureThreshold b \<le> failureCount b');
             full = (failureRateWindow b \<le> length h')
         in failureCount b' = failureCount b + 1
          \<and> h' = record_outcome (failureRateWindow b) False (requestHistory b)
          \<and> (state b' = OPEN \<longleftrightarrow>
                 consecutive \<or> (full \<and> of_nat (failureRateThreshold b) \<le> failureRate h'))
          \<and> (length h' \<le> 2 ^ 44 \<longrightarrow>
                (consecutive \<or> (full \<and> failureRateThreshold b * length h' < 100 * failures h')
                   \<longrightarrow> state b' = OPEN)
              \<and> (state b' = OPEN
                   \<longrightarrow> consecutive
                       \<or> (full \<and> failureRateThreshold b * length h' \<le> 100 * failures h')))
          \<and> (length h' = 10 \<longrightarrow>
                (state b' = OPEN \<longleftrightarrow>
                   consecutive \<or> (full \<and> failureRateThreshold b \<le> 10 * failures h')))"
    unfolding Let_def b'_def[symmetric] h'_def[symmetric]
    using cnt hist opens above below ten by blast
next
  fix b :: breaker and cs :: "'a call list"
  assume "state b = CLOSED \<and> failureThreshold b = 5 \<and> length cs = 5
        \<and> (\<forall>c \<in> set cs. call_fails b c)"
  then show "state (run b cs) = OPEN"
    by (intro consecutive_failures_open) auto
next
  fix b :: breaker and cs :: "'a call list"
  assume "state b = CLOSED \<and> failureRateWindow b = 10 \<and> failureRateThreshold b = 50
        \<and> length (requestHistory b) \<le> 10 \<and> length cs = 10
        \<and> 5 \<le> length (filter (call_fails b) cs) \<and> call_fails b (last cs)"
  then show "\<exists>k \<le> 10. state (run b (take k cs)) = OPEN"
    by (intro ten_calls_open) auto
qed

lemma run_alternating:
  "run fresh alternating = \<lparr> name = ''userProfile'', state = OPEN, failureCount = 1, successCount = 5,
       lastFailureTime = Some 1000, timeout = 2000, failureThreshold = 5,
       failureRateThreshold = 50, failureRateWindow = 10, openDuration = 30000,
       halfOpenTrials = 3, trialCount = 0,
       requestHistory = [True, False, True, False, True, False, True, False, True, False] \<rparr>"
  by (simp add: fresh_eq alternating_def ok_call_def failing_call_def slow_call_def
      after_call execute_def attempt_def onFailure_def onSuccess_def record_outcome_def Let_def
      half_of_ten_failed failures_def)

theorem trip_condition_witness:
  "(state nearly_tripped = CLOSED
    \<and> isl (fst (execute nearly_tripped failing_stub 0 1500 1600))
    \<and> failureCount (fst (snd (execute nearly_tripped failing_stub 0 1500 1600))) = 5
    \<and> state (fst (snd (execute nearly_tripped failing_stub 0 1500 1600))) = OPEN)
   \<and> (state nine_done = CLOSED
    \<and> isl (fst (execute nine_done failing_stub 0 2500 2600))
    \<and> length (requestHistory (fst (snd (execute nine_done failing_stub 0 2500 2600)))) = 10
    \<and> failures (requestHistory (fst (snd (execute nine_done failing_stub 0 2500 2600)))) = 5
    \<and> failureCount (fst (snd (execute nine_done failing_stub 0 2500 2600))) = 1
    \<and> state (fst (snd (execute nine_done failing_stub 0 2500 2600))) = OPEN)
   \<and> (state nine_worse = CLOSED
    \<and> isl (fst (execute nine_worse failing_stub 0 2500 2600))
    \<and> failureRateThreshold nine_worse
          * length (requestHistory (fst (snd (execute nine_worse failing_stub 0 2500 2600))))
        < 100 * failures (requestHistory (fst (snd (execute nine_worse failing_stub 0 2500 2600))))
    \<and> failureCount (fst (snd (execute nine_worse failing_stub 0 2500 2600))) = 2
    \<and> state (fst (snd (execute nine_worse failing_stub 0 2500 2600))) = OPEN)
   \<and> (state fresh = CLOSED \<and> failureThreshold fresh = 5
      \<and> call_fails fresh slow_call \<and> call_fails fresh failing_call
      \<and> state (run fresh [slow_call, failing_call, slow_call, failing_call, slow_call]) = OPEN)
   \<and> (failureRateWindow fresh = 10 \<and> failureRateThreshold fresh = 50
      \<and> length (requestHistory fresh) \<le> 10 \<and> length alternating = 10
      \<and> 5 \<le> length (filter (call_fails fresh) alternating)
      \<and> call_fails fresh (last alternating)
      \<and> (\<exists>k \<le> 10. state (run fresh (take k alternating)) = OPEN))"
proof -
  have h1: "state nearly_tripped = CLOSED \<and> isl (fst (execute nearly_tripped failing_stub 0 1500 1600))"
    by (simp add: nearly_tripped_eq execute_def attempt_def failing_stub_def)
  have h1': "state nine_done = CLOSED \<and> isl (fst (execute nine_done failing_stub 0 2500 2600))"
    by (simp add: nine_done_eq execute_def attempt_def failing_stub_def)
  have h2: "state fresh = CLOSED \<and> failureThreshold fresh = 5
      \<and> length [slow_call, failing_call, slow_call, failing_call, slow_call] = 5
      \<and> (\<forall>c \<in> set [slow_call, failing_call, slow_call, failing_call, slow_call].
            call_fails fresh c)"
    by (simp add: fresh_eq call_fails_def slow_call_def failing_call_def)
  have h3: "state fresh = CLOSED \<and> failureRateWindow fresh = 10 \<and> failureRateThreshold fresh = 50
      \<and> length (requestHistory fresh) \<le> 10 \<and> length alternating = 10
      \<and> 5 \<le> length (filter (call_fails fresh) alternating)
      \<and> call_fails fresh (last alternating)"
    by (simp add: fresh_eq alternating_def call_fails_def slow_call_def failing_call_def ok_call_def)
  note t = trip_condition [where ?'a = json and ?'w = nat]
  from t[THEN conjunct1, rule_format, OF h1]
  have c1: "failureCount (fst (snd (execute nearly_tripped failing_stub 0 1500 1600))) = 5
    \<and> state (fst (snd (execute nearly_tripped failing_stub 0 1500 1600))) = OPEN"
    by (simp add: Let_def nearly_tripped_eq)
  define B where "B = fst (snd (execute nine_done failing_stub 0 2500 2600))"
  have cfg: "failureRateWindow nine_done = 10" "failureRateThreshold nine_done = 50"
    "failureThreshold nine_done = 5" "failureCount nine_done = 0"
    "requestHistory nine_done = [True, False, True, False, True, False, True, False, True]"
    by (simp_all add: nine_done_eq)
  note i = t[THEN conjunct1, rule_format, OF h1', unfolded Let_def, folded B_def]
  have cnt: "failureCount B = 1" using i[THEN conjunct1] by (simp add: cfg)
  have hv: "requestHistory B = [True, False, True, False, True, False, True, False, True, False]"
    using i[THEN conjunct2, THEN conjunct1] by (simp add: cfg record_outcome_def)
  have len: "length (requestHistory B) = 10" and fl: "failures (requestHistory B) = 5"
    by (simp_all add: hv failures_def)
  have "state B = OPEN"
    using i[THEN conjunct2, THEN conjunct2, THEN conjunct2, THEN conjunct2] len fl
    by (simp add: cfg)
  then have c1': "length (requestHistory (fst (snd (execute nine_done failing_stub 0 2500 2600)))) = 10
    \<and> failures (requestHistory (fst (snd (execute nine_done failing_stub 0 2500 2600)))) = 5
    \<and> failureCount (fst (snd (execute nine_done failing_stub 0 2500 2600))) = 1
    \<and> state (fst (snd (execute nine_done failing_stub 0 2500 2600))) = OPEN"
    using len fl cnt by (simp add: B_def)
  have h1'': "state nine_worse = CLOSED \<and> isl (fst (execute nine_worse failing_stub 0 2500 2600))"
    by (simp add: nine_worse_eq execute_def attempt_def failing_stub_def)
  define W where "W = fst (snd (execute nine_worse failing_stub 0 2500 2600))"
  have cfgW: "failureRateWindow nine_worse = 10" "failureRateThreshold nine_worse = 50"
    "failureThreshold nine_worse = 5" "failureCount nine_worse = 1"
    "requestHistory nine_worse = [False, True, False, True, False, True, False, True, False]"
    by (simp_all add: nine_worse_eq)
  note iW = t[THEN conjunct1, rule_format, OF h1'', unfolded Let_def, folded W_def]
  have cntW: "failureCount W = 2" using iW[THEN conjunct1] by (simp add: cfgW)
  have hvW: "requestHistory W = [False, True, False, True, False, True, False, True, False, False]"
    using iW[THEN conjunct2, THEN conjunct1] by (simp add: cfgW record_outcome_def)
  have lenW: "length (requestHistory W) = 10" and flW: "failures (requestHistory W) = 6"
    by (simp_all add: hvW failures_def)
  have "state W = OPEN"
    using iW[THEN conjunct2, THEN conjunct2, THEN conjunct2, THEN conjunct1] lenW flW
    by (simp add: cfgW)
  then have c1'': "failureRateThreshold nine_worse
          * length (requestHistory (fst (snd (execute nine_worse failing_stub 0 2500 2600))))
        < 100 * failures (requestHistory (fst (snd (execute nine_worse failing_stub 0 2500 2600))))
    \<and> failureCount (fst (snd (execute nine_worse failing_stub 0 2500 2600))) = 2
    \<and> state (fst (snd (execute nine_worse failing_stub 0 2500 2600))) = OPEN"
    using lenW flW cntW by (simp add: W_def[symmetric] cfgW)
  from t h2 have c2: "state (run fresh [slow_call, failing_call, slow_call, failing_call, slow_call]) = OPEN"
    by blast
  from t h3 have c3: "\<exists>k \<le> 10. state (run fresh (take k alternating)) = OPEN"
    by blast
  show ?thesis using h1 h1' h1'' h2 h3 c1 c1' c1'' c2 c3 by simp
qed

subsection \<open>The history window\<close>

lemma bounded_onSuccess:
  "length (requestHistory b) \<le> failureRateWindow b \<Longrightarrow>
   length (requestHistory (onSuccess b)) \<le> failureRateWindow b"
  by (simp add: onSuccess_history record_outcome_length)

lemma bounded_onFailure:
  "length (requestHistory b) \<le> failureRateWindow b \<Longrightarrow>
   length (requestHistory (onFailure b t)) \<le> failureRateWindow b"
  by (simp add: onFailure_history record_outcome_length)

lemma history_admit: "admit b t0 = Some b' \<Longrightarrow> requestHistory b' = requestHistory b"
  by (auto simp: admit_def split: if_splits)

lemma bounded_execute:
  assumes "length (requestHistory b) \<le> failureRateWindow b"
  shows "length (requestHistory (fst (snd (execute b fn w t0 t1)))) \<le> failureRateWindow b"
proof (cases "admit b t0")
  case None
  then show ?thesis using assms by (simp add: execute_admit)
next
  case (Some b')
  then have "length (requestHistory b') \<le> failureRateWindow b'"
    using assms history_admit[OF Some] config_fields(5)[OF config_admit[OF Some]] by simp
  then have "length (requestHistory (onSuccess b')) \<le> failureRateWindow b
           \<and> length (requestHistory (onFailure b' t1)) \<le> failureRateWindow b"
    using bounded_onSuccess[of b'] bounded_onFailure[of b' t1]
      config_fields(5)[OF config_admit[OF Some]] by simp
  then show ?thesis
    using Some by (simp add: execute_admit attempt_def split: prod.splits sum.splits)
qed

lemma config_execute: "config (fst (snd (execute b fn w t0 t1))) = config b"
  by (auto simp: execute_admit attempt_def config_onSuccess config_onFailure
      dest: config_admit split: option.splits prod.splits sum.splits)

lemma bounded_after:
  "length (requestHistory b) \<le> failureRateWindow b \<Longrightarrow>
   length (requestHistory (after b c)) \<le> failureRateWindow b"
  by (cases c) (simp add: after_call bounded_execute)

lemma bounded_run:
  "length (requestHistory b) \<le> failureRateWindow b \<Longrightarrow>
   length (requestHistory (run b cs)) \<le> failureRateWindow b"
proof (induction cs arbitrary: b)
  case Nil
  then show ?case by simp
next
  case (Cons c cs)
  have "length (requestHistory (after b c)) \<le> failureRateWindow (after b c)"
    using Cons.prems by (simp add: bounded_after config_fields(5)[OF config_after])
  from Cons.IH[OF this] show ?case
    by (simp add: config_fields(5)[OF config_after])
qed

lemma config_step: "config (step b ev) = config b"
  by (cases ev) (auto simp: config_onSuccess config_onFailure dest: config_admit split: option.splits)

lemma config_steps: "config (foldl step b evs) = config b"
  by (induction evs arbitrary: b) (simp_all add: config_step)

lemma bounded_step:
  "length (requestHistory b) \<le> failureRateWindow b \<Longrightarrow>
   length (requestHistory (step b ev)) \<le> failureRateWindow b"
  by (cases ev) (auto simp: bounded_onSuccess bounded_onFailure dest: history_admit split: option.splits)

lemma bounded_steps:
  "length (requestHistory b) \<le> failureRateWindow b \<Longrightarrow>
   length (requestHistory (foldl step b evs)) \<le> failureRateWindow b"
proof (induction evs arbitrary: b)
  case Nil
  then show ?case by simp
next
  case (Cons ev evs)
  have "length (requestHistory (step b ev)) \<le> failureRateWindow (step b ev)"
    using Cons.prems by (simp add: bounded_step config_fields(5)[OF config_step])
  from Cons.IH[OF this] show ?case
    by (simp add: config_fields(5)[OF config_step])
qed

lemma constructor_history: "requestHistory (constructor nm opts) = []"
  by (simp add: constructor_def)

text \<open>
  Claim C5. The history never holds more than \<open>failureRateWindow\<close> entries: not after
  any sequence of \<open>execute\<close> calls on a breaker built by the constructor, whatever the
  calls do and whenever they are made, not after any interleaving of admissions and
  settlements of overlapping requests, and a single \<open>execute\<close> keeps the bound on any
  breaker that satisfies it.
\<close>

theorem history_window_bounded:
  "length (requestHistory (run (constructor nm opts) cs))
     \<le> failureRateWindow (run (constructor nm opts) cs)
   \<and> length (requestHistory (foldl step (constructor nm opts) evs))
     \<le> failureRateWindow (foldl step (constructor nm opts) evs)
   \<and> (\<forall>b (fn :: 'w \<Rightarrow> 'a promise \<times> 'w) w t0 t1.
        length (requestHistory b) \<le> failureRateWindow b \<longrightarrow>
        length (requestHistory (fst (snd (execute b fn w t0 t1))))
          \<le> failureRateWindow (fst (snd (execute b fn w t0 t1))))"
proof (intro conjI allI impI)
  show "length (requestHistory (run (constructor nm opts) cs))
     \<le> failureRateWindow (run (constructor nm opts) cs)"
    using bounded_run[of "constructor nm opts" cs]
    by (simp add: constructor_history config_fields(5)[OF config_run])
  show "length (requestHistory (foldl step (constructor nm opts) evs))
     \<le> failureRateWindow (foldl step (constructor nm opts) evs)"
    using bounded_steps[of "constructor nm opts" evs]
    by (simp add: constructor_history config_fields(5)[OF config_steps])
next
  fix b :: breaker and fn :: "'w \<Rightarrow> 'a promise \<times> 'w" and w t0 t1
  assume "length (requestHistory b) \<le> failureRateWindow b"
  then show "length (requestHistory (fst (snd (execute b fn w t0 t1))))
          \<le> failureRateWindow (fst (snd (execute b fn w t0 t1)))"
    by (simp add: bounded_execute config_fields(5)[OF config_execute])
qed

lemma run_twelve:
  "requestHistory (run fresh twelve_calls)
   = [False, True, True, False, True, True, True, False, True, True]"
  by (simp add: fresh_eq twelve_calls_def ok_call_def failing_call_def slow_call_def
      after_call execute_def attempt_def onFailure_def onSuccess_def record_outcome_def Let_def
      failureRate_def percentFailed_def failures_def three_of_ten)

theorem history_window_bounded_witness:
  "length (requestHistory (run (constructor ''userProfile'' default_options) twelve_calls)) = 10
   \<and> failureRateWindow (run (constructor ''userProfile'' default_options) twelve_calls) = 10
   \<and> length (requestHistory tripped) \<le> failureRateWindow tripped
   \<and> length (requestHistory (fst (snd (execute tripped counting_stub 0 40000 40000))))
       \<le> failureRateWindow (fst (snd (execute tripped counting_stub 0 40000 40000)))"
proof -
  have h: "length (requestHistory tripped) \<le> failureRateWindow tripped"
    by (simp add: tripped_eq)
  have c: "length (requestHistory (fst (snd (execute tripped counting_stub 0 40000 40000))))
       \<le> failureRateWindow (fst (snd (execute tripped counting_stub 0 40000 40000)))"
    using history_window_bounded [where ?'a = json and ?'w = nat] h by blast
  have r: "length (requestHistory (run (constructor ''userProfile'' default_options) twelve_calls))
     \<le> failureRateWindow (run (constructor ''userProfile'' default_options) twelve_calls)"
    using history_window_bounded [of "''userProfile''" default_options twelve_calls] by blast
  show ?thesis
    using h c r run_twelve config_fields(5)[OF config_run, of fresh twelve_calls]
    by (simp add: fresh_def[symmetric] fresh_eq)
qed

subsection \<open>Probation\<close>

lemma onSuccess_HALF_OPEN:
  "state b = HALF_OPEN \<Longrightarrow>
   onSuccess b =
     (if halfOpenTrials b \<le> trialCount b + 1
      then b\<lparr> successCount := successCount b + 1,
              requestHistory := record_outcome (failureRateWindow b) True (requestHistory b),
              trialCount := trialCount b + 1, state := CLOSED, failureCount := 0 \<rparr>
      else b\<lparr> successCount := successCount b + 1,
              requestHistory := record_outcome (failureRateWindow b) True (requestHistory b),
              trialCount := trialCount b + 1 \<rparr>)"
  by (simp add: onSuccess_def Let_def)

lemma onSuccess_OPEN: "state b = OPEN \<Longrightarrow> state (onSuccess b) = OPEN"
  by (simp add: onSuccess_def Let_def)

lemma succeed_after_not_OPEN:
  assumes "state b \<noteq> OPEN" and "\<not> call_fails b c"
  shows "after b c = onSuccess b"
  using assms by (cases c) (simp add: after_admit call_fails_def admit_not_OPEN)

lemma succeed_run_CLOSED:
  "state b = CLOSED \<Longrightarrow> failureCount b = 0 \<Longrightarrow> \<forall>c \<in> set cs. \<not> call_fails b c \<Longrightarrow>
   state (run b cs) = CLOSED \<and> failureCount (run b cs) = 0"
proof (induction cs arbitrary: b)
  case Nil
  then show ?case by simp
next
  case (Cons c cs)
  have eq: "after b c = onSuccess b"
    using Cons.prems by (simp add: succeed_after_not_OPEN)
  have "\<forall>c' \<in> set cs. \<not> call_fails (after b c) c'"
    using Cons.prems by (simp add: call_fails_config[OF config_after])
  then show ?case
    using Cons.IH[of "after b c"] Cons.prems(1) by (simp add: eq onSuccess_CLOSED)
qed

lemma trials_close:
  "state b = HALF_OPEN \<Longrightarrow> \<forall>c \<in> set cs. \<not> call_fails b c \<Longrightarrow> cs \<noteq> [] \<Longrightarrow>
   halfOpenTrials b \<le> trialCount b + length cs \<Longrightarrow>
   state (run b cs) = CLOSED \<and> failureCount (run b cs) = 0"
proof (induction cs arbitrary: b)
  case Nil
  then show ?case by simp
next
  case (Cons c cs)
  let ?b = "after b c"
  have eq: "?b = onSuccess b"
    using Cons.prems by (simp add: succeed_after_not_OPEN)
  have cfg: "config ?b = config b" by (rule config_after)
  have ok: "\<forall>c' \<in> set cs. \<not> call_fails ?b c'"
    using Cons.prems by (simp add: call_fails_config[OF cfg])
  show ?case
  proof (cases "halfOpenTrials b \<le> trialCount b + 1")
    case True
    then have "state ?b = CLOSED \<and> failureCount ?b = 0"
      using Cons.prems(1) by (simp add: eq onSuccess_HALF_OPEN)
    then show ?thesis using ok by (simp add: succeed_run_CLOSED)
  next
    case False
    then have half: "state ?b = HALF_OPEN" and cnt: "trialCount ?b = trialCount b + 1"
      using Cons.prems(1) by (simp_all add: eq onSuccess_HALF_OPEN)
    have "cs \<noteq> []" using False Cons.prems(4) by auto
    moreover have "halfOpenTrials ?b \<le> trialCount ?b + length cs"
      using Cons.prems(4) by (simp add: cnt config_fields[OF cfg])
    ultimately show ?thesis
      using Cons.IH[OF half ok] by simp
  qed
qed

text \<open>The invariant of probation is kept by every step.\<close>

lemma probation_constructor: "probation_ok (constructor nm opts)"
  by (cases "opt_halfOpenTrials opts") (simp_all add: probation_ok_def constructor_def)

lemma probation_admit: "probation_ok b \<Longrightarrow> admit b t0 = Some b' \<Longrightarrow> probation_ok b'"
  by (auto simp: probation_ok_def admit_def split: if_splits)

lemma probation_onSuccess: "probation_ok b \<Longrightarrow> probation_ok (onSuccess b)"
  by (cases "state b") (auto simp: probation_ok_def onSuccess_HALF_OPEN onSuccess_CLOSED onSuccess_OPEN
      config_fields(7)[OF config_onSuccess])

lemma probation_onFailure: "probation_ok b \<Longrightarrow> probation_ok (onFailure b t)"
  by (cases "state b") (auto simp: probation_ok_def onFailure_HALF_OPEN onFailure_CLOSED onFailure_OPEN
      config_fields(7)[OF config_onFailure])

lemma probation_step: "probation_ok b \<Longrightarrow> probation_ok (step b ev)"
  by (cases ev) (auto simp: probation_onSuccess probation_onFailure
      dest: probation_admit split: option.splits)

lemma probation_steps: "probation_ok b \<Longrightarrow> probation_ok (foldl step b evs)"
  by (induction evs arbitrary: b) (simp_all add: probation_step)

lemma probation_after: "probation_ok b \<Longrightarrow> probation_ok (after b c)"
  by (cases c) (auto simp: after_admit probation_onSuccess probation_onFailure
      dest: probation_admit split: option.splits)

lemma probation_run: "probation_ok b \<Longrightarrow> probation_ok (run b cs)"
  by (induction cs arbitrary: b) (simp_all add: probation_after)

lemma probing_eq:
  "probing = \<lparr> name = ''content'', state = HALF_OPEN, failureCount = 5, successCount = 0,
       lastFailureTime = Some 1000, timeout = 2000, failureThreshold = 5,
       failureRateThreshold = 50, failureRateWindow = 10, openDuration = 30000,
       halfOpenTrials = 3, trialCount = 0,
       requestHistory = [False, False, False, False, False] \<rparr>"
  by (simp add: probing_def tripped_eq admit_def)

lemma half_way_eq:
  "half_way = \<lparr> name = ''content'', state = HALF_OPEN, failureCount = 5, successCount = 2,
       lastFailureTime = Some 1000, timeout = 2000, failureThreshold = 5,
       failureRateThreshold = 50, failureRateWindow = 10, openDuration = 30000,
       halfOpenTrials = 3, trialCount = 2,
       requestHistory = [False, False, False, False, False, True, True] \<rparr>"
  by (simp add: half_way_def tripped_eq after_call execute_def attempt_def onSuccess_def
      record_outcome_def Let_def)

text \<open>
  Claim C3. On a breaker in state \<open>HALF_OPEN\<close> that requires \<open>N > 0\<close> trials, \<open>N\<close> successful
  calls in a row end in state \<open>CLOSED\<close> with \<open>failureCount = 0\<close>; a failing \<open>execute\<close> in
  state \<open>HALF_OPEN\<close> ends in state \<open>OPEN\<close> with \<open>trialCount = 0\<close>; and a breaker built by
  the constructor is never in state \<open>HALF_OPEN\<close> with \<open>trialCount\<close> at or above
  \<open>halfOpenTrials\<close>, neither between calls nor while calls of overlapping requests are
  pending. The constructor never stores 0 trials (\<open>probation_constructor\<close>).
\<close>

theorem half_open_probation:
  "(\<forall>b (cs :: 'a call list).
      state b = HALF_OPEN \<and> 0 < halfOpenTrials b \<and> length cs = halfOpenTrials b
      \<and> (\<forall>c \<in> set cs. \<not> call_fails b c)
      \<longrightarrow> state (run b cs) = CLOSED \<and> failureCount (run b cs) = 0)
   \<and> (\<forall>b (fn :: 'w \<Rightarrow> 'a promise \<times> 'w) w t0 t1.
        state b = HALF_OPEN \<and> isl (fst (execute b fn w t0 t1))
        \<longrightarrow> state (fst (snd (execute b fn w t0 t1))) = OPEN
          \<and> trialCount (fst (snd (execute b fn w t0 t1))) = 0)
   \<and> (\<forall>nm opts (cs :: 'a call list).
        state (run (constructor nm opts) cs) = HALF_OPEN
        \<longrightarrow> trialCount (run (constructor nm opts) cs)
              < halfOpenTrials (run (constructor nm opts) cs))
   \<and> (\<forall>nm opts evs.
        state (foldl step (constructor nm opts) evs) = HALF_OPEN
        \<longrightarrow> trialCount (foldl step (constructor nm opts) evs)
              < halfOpenTrials (foldl step (constructor nm opts) evs))"
proof (intro conjI allI impI)
  fix b :: breaker and cs :: "'a call list"
  assume "state b = HALF_OPEN \<and> 0 < halfOpenTrials b \<and> length cs = halfOpenTrials b
      \<and> (\<forall>c \<in> set cs. \<not> call_fails b c)"
  then have "state b = HALF_OPEN" "\<forall>c \<in> set cs. \<not> call_fails b c" "cs \<noteq> []"
    "halfOpenTrials b \<le> trialCount b + length cs"
    by auto
  then have r: "state (run b cs) = CLOSED \<and> failureCount (run b cs) = 0"
    by (rule trials_close)
  from r show "state (run b cs) = CLOSED" by simp
  from r show "failureCount (run b cs) = 0" by simp
next
  fix b :: breaker and fn :: "'w \<Rightarrow> 'a promise \<times> 'w" and w t0 t1
  assume "state b = HALF_OPEN \<and> isl (fst (execute b fn w t0 t1))"
  then have "state b = HALF_OPEN" and "fst (snd (execute b fn w t0 t1)) = onFailure b t1"
    by (auto simp: execute_def attempt_def split: prod.splits sum.splits)
  then show "state (fst (snd (execute b fn w t0 t1))) = OPEN"
    and "trialCount (fst (snd (execute b fn w t0 t1))) = 0"
    by (simp_all add: onFailure_HALF_OPEN)
next
  fix nm opts and cs :: "'a call list"
  assume "state (run (constructor nm opts) cs) = HALF_OPEN"
  then show "trialCount (run (constructor nm opts) cs)
              < halfOpenTrials (run (constructor nm opts) cs)"
    using probation_run[OF probation_constructor, of nm opts cs]
    by (simp add: probation_ok_def)
next
  fix nm opts evs
  assume "state (foldl step (constructor nm opts) evs) = HALF_OPEN"
  then show "trialCount (foldl step (constructor nm opts) evs)
              < halfOpenTrials (foldl step (constructor nm opts) evs)"
    using probation_steps[OF probation_constructor, of nm opts evs]
    by (simp add: probation_ok_def)
qed

lemma trial_call_eq:
  "run (constructor ''content'' default_options)
     [failing_call, failing_call, failing_call, failing_call, failing_call,
      (31001, Settles 0 (Inr (JStr ''ok'')), 31001)]
   = \<lparr> name = ''content'', state = HALF_OPEN, failureCount = 5, successCount = 1,
       lastFailureTime = Some 1000, timeout = 2000, failureThreshold = 5,
       failureRateThreshold = 50, failureRateWindow = 10, openDuration = 30000,
       halfOpenTrials = 3, trialCount = 1,
       requestHistory = [False, False, False, False, False, True] \<rparr>"
  by (simp add: constructor_def default_options_def failing_call_def
      after_call execute_def attempt_def onFailure_def onSuccess_def record_outcome_def Let_def)

lemma pending_trial_eq:
  "foldl step (constructor ''content'' default_options)
     [Reject 1000, Reject 1000, Reject 1000, Reject 1000, Reject 1000, Enter 31001]
   = probing"
  by (simp add: probing_eq constructor_def default_options_def admit_def
      onFailure_def record_outcome_def Let_def)

theorem half_open_probation_witness:
  "(state probing = HALF_OPEN \<and> 0 < halfOpenTrials probing
     \<and> length [ok_call, ok_call, ok_call] = halfOpenTrials probing
     \<and> \<not> call_fails probing ok_call
     \<and> state (run probing [ok_call, ok_call, ok_call]) = CLOSED
     \<and> failureCount (run probing [ok_call, ok_call, ok_call]) = 0)
   \<and> (isl (fst (execute probing failing_stub 0 31005 31006))
     \<and> state (fst (snd (execute probing failing_stub 0 31005 31006))) = OPEN
     \<and> trialCount (fst (snd (execute probing failing_stub 0 31005 31006))) = 0)
   \<and> (state (run (constructor ''content'' default_options)
          [failing_call, failing_call, failing_call, failing_call, failing_call,
           (31001, Settles 0 (Inr (JStr ''ok'')), 31001)]) = HALF_OPEN
     \<and> trialCount (run (constructor ''content'' default_options)
          [failing_call, failing_call, failing_call, failing_call, failing_call,
           (31001, Settles 0 (Inr (JStr ''ok'')), 31001)]) < 3)
   \<and> (state (foldl step (constructor ''content'' default_options)
          [Reject 1000, Reject 1000, Reject 1000, Reject 1000, Reject 1000, Enter 31001])
        = HALF_OPEN
     \<and> trialCount (foldl step (constructor ''content'' default_options)
          [Reject 1000, Reject 1000, Reject 1000, Reject 1000, Reject 1000, Enter 31001]) < 3)"
proof -
  note t = half_open_probation [where ?'a = json and ?'w = nat]
  have h1: "state probing = HALF_OPEN \<and> 0 < halfOpenTrials probing
     \<and> length [ok_call, ok_call, ok_call] = halfOpenTrials probing
     \<and> (\<forall>c \<in> set [ok_call, ok_call, ok_call]. \<not> call_fails probing c)"
    by (simp add: probing_eq call_fails_def ok_call_def)
  have h2: "state probing = HALF_OPEN \<and> isl (fst (execute probing failing_stub 0 31005 31006))"
    by (simp add: probing_eq execute_def attempt_def failing_stub_def)
  have h3: "state (run (constructor ''content'' default_options)
          [failing_call, failing_call, failing_call, failing_call, failing_call,
           (31001, Settles 0 (Inr (JStr ''ok'')), 31001)]) = HALF_OPEN"
    by (subst trial_call_eq) simp
  have h4: "state (foldl step (constructor ''content'' default_options)
          [Reject 1000, Reject 1000, Reject 1000, Reject 1000, Reject 1000, Enter 31001])
        = HALF_OPEN"
    by (subst pending_trial_eq) (simp add: probing_eq)
  from t h1 have c1: "state (run probing [ok_call, ok_call, ok_call]) = CLOSED
     \<and> failureCount (run probing [ok_call, ok_call, ok_call]) = 0"
    by blast
  from t h2 have c2: "state (fst (snd (execute probing failing_stub 0 31005 31006))) = OPEN
     \<and> trialCount (fst (snd (execute probing failing_stub 0 31005 31006))) = 0"
    by blast
  from t h3 have c3: "trialCount (run (constructor ''content'' default_options)
          [failing_call, failing_call, failing_call, failing_call, failing_call,
           (31001, Settles 0 (Inr (JStr ''ok'')), 31001)])
      < halfOpenTrials (run (constructor ''content'' default_options)
          [failing_call, failing_call, failing_call, failing_call, failing_call,
           (31001, Settles 0 (Inr (JStr ''ok'')), 31001)])"
    by blast
  from t h4 have c4: "trialCount (foldl step (constructor ''content'' default_options)
          [Reject 1000, Reject 1000, Reject 1000, Reject 1000, Reject 1000, Enter 31001])
      < halfOpenTrials (foldl step (constructor ''content'' default_options)
          [Reject 1000, Reject 1000, Reject 1000, Reject 1000, Reject 1000, Enter 31001])"
    by blast
  have n3: "halfOpenTrials (run (constructor ''content'' default_options)
          [failing_call, failing_call, failing_call, failing_call, failing_call,
           (31001, Settles 0 (Inr (JStr ''ok'')), 31001)]) = 3"
    by (subst trial_call_eq) simp
  have n4: "halfOpenTrials (foldl step (constructor ''content'' default_options)
          [Reject 1000, Reject 1000, Reject 1000, Reject 1000, Reject 1000, Enter 31001]) = 3"
    by (subst pending_trial_eq) (simp add: probing_eq)
  show ?thesis
    using h1 h2 h3 h4 c1 c2 c3[unfolded n3] c4[unfolded n4] by simp
qed

subsection \<open>Closing\<close>

text \<open>
  Claim C4 as stated. The statement "the success that closes the circuit leaves \<open>failureCount = 0\<close> and
  \<open>trialCount = 0\<close>" fails: after two successful trials of three, the third success
  closes the circuit with \<open>trialCount = 3\<close>.
\<close>

theorem close_zeroes_trials_counterexample:
  "state half_way = HALF_OPEN
   \<and> fst (execute half_way counting_stub 0 31003 31003) = Inr (JStr ''ok'')
   \<and> state (fst (snd (execute half_way counting_stub 0 31003 31003))) = CLOSED
   \<and> failureCount (fst (snd (execute half_way counting_stub 0 31003 31003))) = 0
   \<and> trialCount (fst (snd (execute half_way counting_stub 0 31003 31003))) = 3
   \<and> \<not> (failureCount (fst (snd (execute half_way counting_stub 0 31003 31003))) = 0
        \<and> trialCount (fst (snd (execute half_way counting_stub 0 31003 31003))) = 0)"
  by (simp add: half_way_eq execute_def attempt_def counting_stub_def onSuccess_def
      record_outcome_def Let_def)

text \<open>
  Claim C4, amended. A successful \<open>execute\<close> that takes a breaker from \<open>HALF_OPEN\<close> to
  \<open>CLOSED\<close> sets \<open>failureCount\<close> to 0 and leaves \<open>trialCount\<close> at the count it has just
  reached, one more than before and at least \<open>halfOpenTrials\<close>. The field is set to 0
  where probation begins and where a trial fails, not where probation ends.
\<close>

theorem close_keeps_trials:
  "state b = HALF_OPEN \<and> \<not> isl (fst (execute b fn w t0 t1))
   \<and> state (fst (snd (execute b fn w t0 t1))) = CLOSED
   \<longrightarrow> failureCount (fst (snd (execute b fn w t0 t1))) = 0
     \<and> trialCount (fst (snd (execute b fn w t0 t1))) = trialCount b + 1
     \<and> halfOpenTrials b \<le> trialCount (fst (snd (execute b fn w t0 t1)))"
proof (intro impI)
  assume a: "state b = HALF_OPEN \<and> \<not> isl (fst (execute b fn w t0 t1))
   \<and> state (fst (snd (execute b fn w t0 t1))) = CLOSED"
  then have "fst (snd (execute b fn w t0 t1)) = onSuccess b"
    by (auto simp: execute_def attempt_def split: prod.splits sum.splits)
  with a show "failureCount (fst (snd (execute b fn w t0 t1))) = 0
     \<and> trialCount (fst (snd (execute b fn w t0 t1))) = trialCount b + 1
     \<and> halfOpenTrials b \<le> trialCount (fst (snd (execute b fn w t0 t1)))"
    by (auto simp: onSuccess_HALF_OPEN split: if_splits)
qed

theorem close_keeps_trials_witness:
  "state half_way = HALF_OPEN
   \<and> \<not> isl (fst (execute half_way counting_stub 0 31003 31003))
   \<and> state (fst (snd (execute half_way counting_stub 0 31003 31003))) = CLOSED
   \<and> failureCount (fst (snd (execute half_way counting_stub 0 31003 31003))) = 0
   \<and> trialCount (fst (snd (execute half_way counting_stub 0 31003 31003))) = 3
   \<and> halfOpenTrials half_way \<le> 3"
proof -
  have h: "state half_way = HALF_OPEN
   \<and> \<not> isl (fst (execute half_way counting_stub 0 31003 31003))
   \<and> state (fst (snd (execute half_way counting_stub 0 31003 31003))) = CLOSED"
    by (simp add: half_way_eq execute_def attempt_def counting_stub_def onSuccess_def
      record_outcome_def Let_def)
  from close_keeps_trials [of half_way counting_stub 0 31003 31003] h
  have "failureCount (fst (snd (execute half_way counting_stub 0 31003 31003))) = 0
     \<and> trialCount (fst (snd (execute half_way counting_stub 0 31003 31003))) = trialCount half_way + 1
     \<and> halfOpenTrials half_way \<le> trialCount (fst (snd (execute half_way counting_stub 0 31003 31003)))"
    by blast
  with h show ?thesis by (simp add: half_way_eq)
qed

section \<open>Properties of the metrics snapshot\<close>

lemma decimal_nonempty: "decimal n \<noteq> []"
  by (subst decimal.simps) simp

lemma digit_char_digit: "d < 10 \<Longrightarrow> digit_char d \<in> set ''0123456789''"
  unfolding digit_char_def by (rule nth_mem) simp

lemma toFixed1_shape:
  "\<exists>whole d. whole \<noteq> [] \<and> d \<in> set ''0123456789'' \<and> toFixed1 x = whole @ ''.'' @ [d]"
proof -
  let ?n = "nat \<lfloor>\<bar>x\<bar> * 10 + 1 / 2\<rfloor>"
  let ?whole = "(if x < 0 \<and> 0 < ?n then ''-'' else '''') @ decimal (?n div 10)"
  have "?whole \<noteq> []" by (simp add: decimal_nonempty)
  moreover have "digit_char (?n mod 10) \<in> set ''0123456789''"
    by (rule digit_char_digit) simp
  moreover have "toFixed1 x = ?whole @ ''.'' @ [digit_char (?n mod 10)]"
    by (simp add: toFixed1_def Let_def)
  ultimately show ?thesis by blast
qed

text \<open>
  Claim C8 as stated. The statement "the failure rate field of the snapshot is \<open>0.0\<close> when the history is
  empty" fails on a new breaker: the field is the string \<open>0.0%\<close>.
\<close>

theorem empty_rate_counterexample:
  "requestHistory fresh = []
   \<and> field (fst (getMetrics fresh)) ''failureRate'' = Some (JStr ''0.0%'')
   \<and> field (fst (getMetrics fresh)) ''failureRate'' \<noteq> Some (JStr ''0.0'')"
  by (simp add: fresh_eq getMetrics_def)

text \<open>
  Claim C8, amended. \<open>getMetrics\<close> returns an object with exactly the keys \<open>state\<close>,
  \<open>failureRate\<close>, \<open>successfulCalls\<close> and \<open>failedCalls\<close>, holding the state, the failure
  percentage of the history printed with one digit after the point and followed by a
  percent sign (\<open>0.0%\<close> for an empty history), \<open>successCount\<close> and \<open>failureCount\<close>; the
  breaker is left as it was. The handler of the metrics endpoint returns this object for
  each of the two breakers and leaves the module state as it was.
\<close>

theorem metrics_snapshot:
  "keys (fst (getMetrics b)) = [''state'', ''failureRate'', ''successfulCalls'', ''failedCalls'']
   \<and> field (fst (getMetrics b)) ''state'' = Some (JStr (state_name (state b)))
   \<and> field (fst (getMetrics b)) ''successfulCalls'' = Some (JNum (int (successCount b)))
   \<and> field (fst (getMetrics b)) ''failedCalls'' = Some (JNum (int (failureCount b)))
   \<and> field (fst (getMetrics b)) ''failureRate''
       = Some (JStr (if requestHistory b = [] then ''0.0%''
                     else toFixed1 (percentFailed (requestHistory b)) @ ''%''))
   \<and> (\<exists>whole d. whole \<noteq> [] \<and> d \<in> set ''0123456789''
         \<and> field (fst (getMetrics b)) ''failureRate'' = Some (JStr (whole @ ''.'' @ [d] @ ''%'')))
   \<and> snd (getMetrics b) = b
   \<and> fst (metrics_handler a)
       = res_json (JObj [(''userProfileCircuitBreaker'', fst (getMetrics (breakers_userProfile a))),
                         (''contentCircuitBreaker'', fst (getMetrics (breakers_content a)))])
   \<and> snd (metrics_handler a) = a"
proof -
  have shape: "\<exists>whole d. whole \<noteq> [] \<and> d \<in> set ''0123456789''
         \<and> field (fst (getMetrics b)) ''failureRate'' = Some (JStr (whole @ ''.'' @ [d] @ ''%''))"
  proof (cases "requestHistory b = []")
    case True
    have "''0'' \<noteq> [] \<and> CHR ''0'' \<in> set ''0123456789''
      \<and> field (fst (getMetrics b)) ''failureRate'' = Some (JStr (''0'' @ ''.'' @ [CHR ''0''] @ ''%''))"
      using True by (simp add: getMetrics_def)
    then show ?thesis by blast
  next
    case False
    obtain whole d where "whole \<noteq> []" "d \<in> set ''0123456789''"
      "toFixed1 (percentFailed (requestHistory b)) = whole @ ''.'' @ [d]"
      using toFixed1_shape by blast
    then have "whole \<noteq> [] \<and> d \<in> set ''0123456789''
      \<and> field (fst (getMetrics b)) ''failureRate'' = Some (JStr (whole @ ''.'' @ [d] @ ''%''))"
      using False by (simp add: getMetrics_def)
    then show ?thesis by blast
  qed
  show ?thesis
    by (intro conjI shape) (simp_all add: getMetrics_def metrics_handler_def)
qed

lemma one_of_three: "toFixed1 (percentFailed [False, True, True]) = ''33.3''"
  by code_simp

lemma five_of_five: "toFixed1 (percentFailed [False, False, False, False, False]) = ''100.0''"
  by code_simp

theorem metrics_snapshot_witness:
  "fst (getMetrics tripped)
     = JObj [(''state'', JStr ''OPEN''), (''failureRate'', JStr ''100.0%''),
             (''successfulCalls'', JNum 0), (''failedCalls'', JNum 5)]
   \<and> snd (getMetrics tripped) = tripped
   \<and> field (fst (getMetrics (fresh\<lparr> requestHistory := [False, True, True] \<rparr>))) ''failureRate''
       = Some (JStr ''33.3%'')
   \<and> field (fst (getMetrics fresh)) ''failureRate'' = Some (JStr ''0.0%'')"
proof -
  have "fst (getMetrics tripped)
     = JObj [(''state'', JStr ''OPEN''), (''failureRate'', JStr ''100.0%''),
             (''successfulCalls'', JNum 0), (''failedCalls'', JNum 5)]"
    by (simp add: getMetrics_def tripped_eq five_of_five)
  then show ?thesis
    using metrics_snapshot [of tripped] metrics_snapshot [of fresh]
      metrics_snapshot [of "fresh\<lparr> requestHistory := [False, True, True] \<rparr>"]
    by (simp add: fresh_eq one_of_three)
qed

section \<open>Properties of the recommendations endpoint\<close>

lemma trending_call:
  "await (mockServiceCall url ''normal'' ''trending'') = Some (Inr (mock_data ''trending''))"
  by (simp add: mockServiceCall_def)

lemma compose_eq:
  "compose url userId sp sc userPreferences recommendations =
     Some (Inr (res_json
       (if sp = OPEN \<and> sc = OPEN then
          JObj [(''message'', JStr ''Our recommendation service is temporarily degraded. Here are some trending movies.''),
                (''trending'', mock_data ''trending''),
                (''fallback_triggered_for'', JStr ''user-profile-service, content-service'')]
        else if sp = OPEN then
          JObj [(''userPreferences'', default_preferences userId),
                (''recommendations'', recommendations),
                (''fallback_triggered_for'', JStr ''user-profile-service'')]
        else if sc = OPEN then
          JObj [(''userPreferences'', userPreferences),
                (''trending'', mock_data ''trending''),
                (''message'', JStr ''Using trending movies as fallback''),
                (''fallback_triggered_for'', JStr ''content-service'')]
        else
          JObj [(''userPreferences'', userPreferences),
                (''recommendations'', recommendations)])))"
  by (simp add: compose_def trending_call)

lemma fetch_userPreferences_eq:
  "fetch_userPreferences url behavior userId b t0 t1 =
     (let r = execute b (\<lambda>w. (mockServiceCall url behavior ''user'', w)) () t0 t1
      in (case fst r of Inr v \<Rightarrow> v | Inl e \<Rightarrow> default_preferences userId,
          isl (fst r), fst (snd r)))"
  by (simp add: fetch_userPreferences_def Let_def split: prod.splits sum.splits)

lemma fetch_recommendations_eq:
  "fetch_recommendations url behavior b t0 t1 =
     (let r = execute b (\<lambda>w. (mockServiceCall url behavior ''movies'', w)) () t0 t1
      in (case fst r of Inr v \<Rightarrow> v | Inl e \<Rightarrow> JArr [],
          isl (fst r), fst (snd r)))"
  by (simp add: fetch_recommendations_def Let_def split: prod.splits sum.splits)

lemma getRecommendations_eq:
  "getRecommendations e a userId tp0 tp1 tc0 tc1 =
     (let p = fetch_userPreferences (env_or (USER_PROFILE_URL e) ''http://user-profile-service:8081'')
                (serviceStates_user_profile a) userId (breakers_userProfile a) tp0 tp1;
          c = fetch_recommendations (env_or (CONTENT_URL e) ''http://content-service:8082'')
                (serviceStates_content a) (breakers_content a) tc0 tc1
      in (map_option (case_sum (\<lambda>err. \<lparr> status = 500, body = JObj [(''error'', JStr (message err))] \<rparr>) id)
            (compose (env_or (TRENDING_URL e) ''http://trending-service:8083'') userId
               (state (snd (snd p))) (state (snd (snd c))) (fst p) (fst c)),
          a\<lparr> breakers_userProfile := snd (snd p), breakers_content := snd (snd c) \<rparr>))"
  by (simp add: getRecommendations_def Let_def case_prod_beta compose_eq)

lemma tripped_profile_eq:
  "tripped_profile
   = \<lparr> name = ''userProfile'', state = OPEN, failureCount = 5, successCount = 0,
       lastFailureTime = Some 1000, timeout = 2000, failureThreshold = 5,
       failureRateThreshold = 50, failureRateWindow = 10, openDuration = 30000,
       halfOpenTrials = 3, trialCount = 0,
       requestHistory = [False, False, False, False, False] \<rparr>"
  by (simp add: tripped_profile_def fresh_eq failing_call_def
      after_call execute_def attempt_def onFailure_def record_outcome_def Let_def)

lemma initial_app_eq:
  "initial_app = \<lparr> breakers_userProfile = fresh,
       breakers_content = fresh\<lparr> name := ''content'' \<rparr>,
       serviceStates_user_profile = ''normal'', serviceStates_content = ''normal'' \<rparr>"
  by (simp add: initial_app_def fresh_def constructor_def)

lemmas handler_eval =
  getRecommendations_def fetch_userPreferences_def fetch_recommendations_def compose_def
  mockServiceCall_def execute_def attempt_def onFailure_def onSuccess_def record_outcome_def
  open_error_def res_json_def no_env_def Let_def

lemma profile_failing_response:
  "getRecommendations no_env profile_failing ''42'' 0 1000 0 1000 =
     (Some (res_json (JObj [(''userPreferences'', default_preferences ''42''),
                            (''recommendations'', mock_data ''movies'')])),
      profile_failing\<lparr>
        breakers_userProfile := onFailure fresh 1000,
        breakers_content := onSuccess (fresh\<lparr> name := ''content'' \<rparr>) \<rparr>)"
  by (simp add: profile_failing_def initial_app_eq fresh_eq handler_eval)

text \<open>
  Claim C6 as stated. The statement "when neither breaker is \<open>OPEN\<close> the response carries the real
  preferences" fails: with the profile service set to \<open>fail\<close>, the first request leaves
  both breakers \<open>CLOSED\<close> and answers with the default preferences.
\<close>

theorem real_preferences_counterexample:
  "isl (fst (execute (breakers_userProfile profile_failing)
          (\<lambda>w. (mockServiceCall ''http://user-profile-service:8081''
                   (serviceStates_user_profile profile_failing) ''user'', w)) () 0 1000))
   \<and> state (breakers_userProfile (snd (getRecommendations no_env profile_failing ''42'' 0 1000 0 1000)))
       = CLOSED
   \<and> state (breakers_content (snd (getRecommendations no_env profile_failing ''42'' 0 1000 0 1000)))
       = CLOSED
   \<and> fst (getRecommendations no_env profile_failing ''42'' 0 1000 0 1000)
       = Some (res_json (JObj [(''userPreferences'',
                                JObj [(''userId'', JStr ''42''),
                                      (''preferences'', JArr [JStr ''Comedy'', JStr ''Family''])]),
                               (''recommendations'', mock_data ''movies'')]))
   \<and> JObj [(''userId'', JStr ''42''), (''preferences'', JArr [JStr ''Comedy'', JStr ''Family''])]
       \<noteq> mock_data ''user''"
  by (simp add: profile_failing_response)
     (simp add: profile_failing_def initial_app_eq fresh_eq default_preferences_def mock_data_def
        mockServiceCall_def execute_def attempt_def onFailure_def onSuccess_def
        record_outcome_def Let_def)

text \<open>
  Claim C6, amended. The body of the response is chosen by the two breaker states after
  both calls, in this order: both \<open>OPEN\<close>, the degraded message with the trending list
  and both services named in \<open>fallback_triggered_for\<close>; else profile breaker \<open>OPEN\<close>, the
  default preferences, the catalog value held and the profile service named; else
  content breaker \<open>OPEN\<close>, the preferences held, the trending list and the content
  service named; else the preferences and the catalog value held, with no
  \<open>fallback_triggered_for\<close>. The values held are the results of the calls that
  succeeded and the substitutes (default preferences, empty list) for the calls that
  failed; whether a call failed has no other influence on the body.
\<close>

theorem composition_by_state:
  "let a' = snd (getRecommendations e a userId tp0 tp1 tc0 tc1);
       sp = state (breakers_userProfile a');
       sc = state (breakers_content a');
       userPreferences =
         (case fst (execute (breakers_userProfile a)
                      (\<lambda>w. (mockServiceCall
                               (env_or (USER_PROFILE_URL e) ''http://user-profile-service:8081'')
                               (serviceStates_user_profile a) ''user'', w)) () tp0 tp1) of
            Inr v \<Rightarrow> v | Inl err \<Rightarrow> default_preferences userId);
       recommendations =
         (case fst (execute (breakers_content a)
                      (\<lambda>w. (mockServiceCall
                               (env_or (CONTENT_URL e) ''http://content-service:8082'')
                               (serviceStates_content a) ''movies'', w)) () tc0 tc1) of
            Inr v \<Rightarrow> v | Inl err \<Rightarrow> JArr [])
   in fst (getRecommendations e a userId tp0 tp1 tc0 tc1) =
       Some (res_json
         (if sp = OPEN \<and> sc = OPEN then
            JObj [(''message'', JStr ''Our recommendation service is temporarily degraded. Here are some trending movies.''),
                  (''trending'', mock_data ''trending''),
                  (''fallback_triggered_for'', JStr ''user-profile-service, content-service'')]
          else if sp = OPEN then
            JObj [(''userPreferences'', default_preferences userId),
                  (''recommendations'', recommendations),
                  (''fallback_triggered_for'', JStr ''user-profile-service'')]
          else if sc = OPEN then
            JObj [(''userPreferences'', userPreferences),
                  (''trending'', mock_data ''trending''),
                  (''message'', JStr ''Using trending movies as fallback''),
                  (''fallback_triggered_for'', JStr ''content-service'')]
          else
            JObj [(''userPreferences'', userPreferences),
                  (''recommendations'', recommendations)]))"
  by (simp add: getRecommendations_eq fetch_userPreferences_eq fetch_recommendations_eq
      compose_eq Let_def)

theorem composition_by_state_witness:
  "fst (getRecommendations no_env profile_open_content_failing ''7'' 1500 1600 1700 1800)
   = Some (res_json (JObj [(''userPreferences'', default_preferences ''7''),
                           (''recommendations'', JArr []),
                           (''fallback_triggered_for'', JStr ''user-profile-service'')]))"
proof -
  have "state (breakers_userProfile
          (snd (getRecommendations no_env profile_open_content_failing ''7'' 1500 1600 1700 1800)))
        = OPEN
      \<and> state (breakers_content
          (snd (getRecommendations no_env profile_open_content_failing ''7'' 1500 1600 1700 1800)))
        = CLOSED"
    by (simp add: profile_open_content_failing_def tripped_profile_eq initial_app_eq fresh_eq
        handler_eval)
  moreover have "isl (fst (execute (breakers_content profile_open_content_failing)
          (\<lambda>w. (mockServiceCall (env_or (CONTENT_URL no_env) ''http://content-service:8082'')
                   (serviceStates_content profile_open_content_failing) ''movies'', w)) () 1700 1800))"
    by (simp add: profile_open_content_failing_def initial_app_eq fresh_eq
        mockServiceCall_def execute_def attempt_def)
  ultimately show ?thesis
    using composition_by_state [of no_env profile_open_content_failing "''7''" 1500 1600 1700 1800]
    by (simp add: Let_def split: sum.splits)
qed

subsection \<open>The request never fails\<close>

lemma success_leaves_not_OPEN:
  assumes "fst (execute b fn w t0 t1) = Inr v"
  shows "state (fst (snd (execute b fn w t0 t1))) \<noteq> OPEN"
proof (cases "admit b t0")
  case None
  then show ?thesis using assms by (simp add: execute_admit)
next
  case (Some b')
  then have ne: "state b' \<noteq> OPEN" by (auto simp: admit_def split: if_splits)
  have "fst (snd (execute b fn w t0 t1)) = onSuccess b'"
    using assms Some by (auto simp: execute_admit attempt_def split: prod.splits sum.splits)
  moreover have "state (onSuccess b') \<noteq> OPEN"
    using ne by (cases "state b'") (auto simp: onSuccess_CLOSED onSuccess_HALF_OPEN)
  ultimately show ?thesis by simp
qed

text \<open>
  Claim C7. Every request is answered, with status 200, whatever the user id, the
  simulated behaviours, the state of the two breakers and the clock. Both calls are made
  through their breakers. The answer carries the result of a call that succeeded; for a
  call that failed in any way (rejection by the open breaker, lost race, error of the
  service) it carries the substitute, default preferences or the empty list, or, where
  the breakers are \<open>OPEN\<close>, the trending list in its place.
\<close>

theorem always_responds:
  "let P = execute (breakers_userProfile a)
             (\<lambda>w. (mockServiceCall
                      (env_or (USER_PROFILE_URL e) ''http://user-profile-service:8081'')
                      (serviceStates_user_profile a) ''user'', w)) () tp0 tp1;
       C = execute (breakers_content a)
             (\<lambda>w. (mockServiceCall
                      (env_or (CONTENT_URL e) ''http://content-service:8082'')
                      (serviceStates_content a) ''movies'', w)) () tc0 tc1
   in \<exists>r. fst (getRecommendations e a userId tp0 tp1 tc0 tc1) = Some r
        \<and> status r = 200
        \<and> snd (getRecommendations e a userId tp0 tp1 tc0 tc1)
            = a\<lparr> breakers_userProfile := fst (snd P), breakers_content := fst (snd C) \<rparr>
        \<and> (case fst P of
              Inr v \<Rightarrow> field (body r) ''userPreferences'' = Some v
            | Inl err \<Rightarrow>
                if state (fst (snd P)) = OPEN \<and> state (fst (snd C)) = OPEN
                then field (body r) ''userPreferences'' = None
                   \<and> field (body r) ''trending'' = Some (mock_data ''trending'')
                else field (body r) ''userPreferences'' = Some (default_preferences userId))
        \<and> (case fst C of
              Inr v \<Rightarrow> field (body r) ''recommendations'' = Some v
            | Inl err \<Rightarrow>
                if state (fst (snd C)) = OPEN
                then field (body r) ''recommendations'' = None
                   \<and> field (body r) ''trending'' = Some (mock_data ''trending'')
                else field (body r) ''recommendations'' = Some (JArr []))"
proof -
  define P where "P = execute (breakers_userProfile a)
             (\<lambda>w. (mockServiceCall
                      (env_or (USER_PROFILE_URL e) ''http://user-profile-service:8081'')
                      (serviceStates_user_profile a) ''user'', w)) () tp0 tp1"
  define C where "C = execute (breakers_content a)
             (\<lambda>w. (mockServiceCall
                      (env_or (CONTENT_URL e) ''http://content-service:8082'')
                      (serviceStates_content a) ''movies'', w)) () tc0 tc1"
  define prefs where "prefs = (case fst P of Inr v \<Rightarrow> v | Inl err \<Rightarrow> default_preferences userId)"
  define recs where "recs = (case fst C of Inr v \<Rightarrow> v | Inl err \<Rightarrow> JArr [])"
  define r where "r = res_json
       (if state (fst (snd P)) = OPEN \<and> state (fst (snd C)) = OPEN then
          JObj [(''message'', JStr ''Our recommendation service is temporarily degraded. Here are some trending movies.''),
                (''trending'', mock_data ''trending''),
                (''fallback_triggered_for'', JStr ''user-profile-service, content-service'')]
        else if state (fst (snd P)) = OPEN then
          JObj [(''userPreferences'', default_preferences userId),
                (''recommendations'', recs),
                (''fallback_triggered_for'', JStr ''user-profile-service'')]
        else if state (fst (snd C)) = OPEN then
          JObj [(''userPreferences'', prefs),
                (''trending'', mock_data ''trending''),
                (''message'', JStr ''Using trending movies as fallback''),
                (''fallback_triggered_for'', JStr ''content-service'')]
        else
          JObj [(''userPreferences'', prefs), (''recommendations'', recs)])"
  have resp: "getRecommendations e a userId tp0 tp1 tc0 tc1
              = (Some r, a\<lparr> breakers_userProfile := fst (snd P), breakers_content := fst (snd C) \<rparr>)"
    by (simp add: getRecommendations_eq fetch_userPreferences_eq fetch_recommendations_eq
        compose_eq Let_def r_def prefs_def recs_def P_def C_def)
  have st: "status r = 200" by (simp add: r_def res_json_def)
  have pOK: "state (fst (snd P)) \<noteq> OPEN" if "fst P = Inr v" for v
    using that unfolding P_def by (rule success_leaves_not_OPEN)
  have cOK: "state (fst (snd C)) \<noteq> OPEN" if "fst C = Inr v" for v
    using that unfolding C_def by (rule success_leaves_not_OPEN)
  have up: "case fst P of
              Inr v \<Rightarrow> field (body r) ''userPreferences'' = Some v
            | Inl err \<Rightarrow>
                if state (fst (snd P)) = OPEN \<and> state (fst (snd C)) = OPEN
                then field (body r) ''userPreferences'' = None
                   \<and> field (body r) ''trending'' = Some (mock_data ''trending'')
                else field (body r) ''userPreferences'' = Some (default_preferences userId)"
  proof (cases "fst P")
    case (Inl err)
    then show ?thesis by (simp add: r_def res_json_def prefs_def)
  next
    case (Inr v)
    then show ?thesis using pOK[OF Inr] by (simp add: r_def res_json_def prefs_def)
  qed
  have rc: "case fst C of
              Inr v \<Rightarrow> field (body r) ''recommendations'' = Some v
            | Inl err \<Rightarrow>
                if state (fst (snd C)) = OPEN
                then field (body r) ''recommendations'' = None
                   \<and> field (body r) ''trending'' = Some (mock_data ''trending'')
                else field (body r) ''recommendations'' = Some (JArr [])"
  proof (cases "fst C")
    case (Inl err)
    then show ?thesis by (simp add: r_def res_json_def recs_def)
  next
    case (Inr v)
    then show ?thesis using cOK[OF Inr] by (simp add: r_def res_json_def recs_def)
  qed
  show ?thesis
    unfolding Let_def P_def[symmetric] C_def[symmetric]
    using resp st up rc by auto
qed

lemma slow_profile_times_out:
  "execute (breakers_userProfile both_unwell)
     (\<lambda>w. (mockServiceCall ''http://user-profile-service:8081''
              (serviceStates_user_profile both_unwell) ''user'', w)) () 0 2000
   = (Inl (Error ''Timeout''), onFailure fresh 2000, ())"
  by (simp add: both_unwell_def initial_app_eq fresh_eq mockServiceCall_def execute_def attempt_def)

lemma failing_content_rejects:
  "execute (breakers_content both_unwell)
     (\<lambda>w. (mockServiceCall ''http://content-service:8082''
              (serviceStates_content both_unwell) ''movies'', w)) () 2000 2001
   = (Inl (Error ''Service Error - 500''), onFailure (fresh\<lparr> name := ''content'' \<rparr>) 2001, ())"
  by (simp add: both_unwell_def initial_app_eq fresh_eq mockServiceCall_def execute_def attempt_def)

lemma open_content_rejects:
  "execute (breakers_content content_open_profile_failing)
     (\<lambda>w. (mockServiceCall ''http://content-service:8082''
              (serviceStates_content content_open_profile_failing) ''movies'', w)) () 1700 1800
   = (Inl (Error ''Circuit breaker content is OPEN''), tripped, ())"
  by (simp add: content_open_profile_failing_def initial_app_eq tripped_eq execute_def open_error_def)

lemma failing_profile_rejects:
  "execute (breakers_userProfile content_open_profile_failing)
     (\<lambda>w. (mockServiceCall ''http://user-profile-service:8081''
              (serviceStates_user_profile content_open_profile_failing) ''user'', w)) () 1500 1600
   = (Inl (Error ''Service Error - 500''), onFailure fresh 1600, ())"
  by (simp add: content_open_profile_failing_def initial_app_eq fresh_eq mockServiceCall_def
      execute_def attempt_def)

lemma first_failure_keeps_closed:
  "state (onFailure fresh t) = CLOSED" "state (onFailure (fresh\<lparr> name := ''content'' \<rparr>) t) = CLOSED"
  by (simp_all add: fresh_eq onFailure_def record_outcome_def Let_def)

theorem always_responds_witness:
  "(\<exists>r. fst (getRecommendations no_env both_unwell ''42'' 0 2000 2000 2001) = Some r
        \<and> status r = 200
        \<and> field (body r) ''userPreferences'' = Some (default_preferences ''42'')
        \<and> field (body r) ''recommendations'' = Some (JArr []))
   \<and> (\<exists>r. fst (getRecommendations no_env content_open_profile_failing ''42'' 1500 1600 1700 1800) = Some r
        \<and> status r = 200
        \<and> field (body r) ''userPreferences'' = Some (default_preferences ''42'')
        \<and> field (body r) ''recommendations'' = None
        \<and> field (body r) ''trending'' = Some (mock_data ''trending''))"
proof -
  have s: "state tripped = OPEN" by (simp add: tripped_eq)
  show ?thesis
    using always_responds [of both_unwell no_env 0 2000 2000 2001 "''42''"]
      always_responds [of content_open_profile_failing no_env 1500 1600 1700 1800 "''42''"]
    by (simp add: Let_def no_env_def slow_profile_times_out failing_content_rejects
        open_content_rejects failing_profile_rejects first_failure_keeps_closed s; blast)
qed

subsection \<open>Fallback data without an annotation\<close>










end
